theory Spec2Isabelle
  imports Complex_Main "HOL-Library.Multiset" "HOL-Library.Sublist"
begin

section \<open>Data model\<close>

text \<open>
  The retrieval core of the backend: \<^verbatim>\<open>services/agent/brain_agent.py\<close>
  (\<^verbatim>\<open>cosine_similarity\<close>, \<^verbatim>\<open>BrainAgent._retrieve_logs\<close>),
  \<^verbatim>\<open>services/database.py\<close> (the four read queries) and
  \<^verbatim>\<open>llm/base.py\<close> (\<^verbatim>\<open>BaseLLM._extract_json\<close>).

  What the code takes from libraries is a parameter of the model and nothing is assumed
  about it: the arithmetic of floats and of numpy (rounding, overflow, nan),
  \<^verbatim>\<open>str.lower\<close>, \<^verbatim>\<open>strptime\<close> and \<^verbatim>\<open>timestamp\<close>,
  \<^verbatim>\<open>json.loads\<close>, the embedding service and the failures of the database.
\<close>

datatype error =
  DatabaseError | ValueError | OverflowError | EmbeddingError | JSONDecodeError | RecursionError

subsection \<open>Floats\<close>

text \<open>
  A Python float is a number, finite or infinite, or nan. The numbers are ordered as
  Python compares them; \<open>Num x\<close> for a decimal literal \<open>x\<close> stands for the float
  Python reads the literal as. Scores are numbers: they are 1.0, 0.3, 0.1, products of
  0.7 with a similarity above 0.3, and sums of these, which are positive and never nan.
\<close>

datatype number = NegInf | Num real | PosInf

datatype pyfloat = NaN | Fl number

instantiation number :: linorder
begin

fun less_eq_number :: "number \<Rightarrow> number \<Rightarrow> bool" where
  "less_eq_number NegInf y = True"
| "less_eq_number (Num x) NegInf = False"
| "less_eq_number (Num x) (Num y) = (x \<le> y)"
| "less_eq_number (Num x) PosInf = True"
| "less_eq_number PosInf NegInf = False"
| "less_eq_number PosInf (Num y) = False"
| "less_eq_number PosInf PosInf = True"

definition less_number :: "number \<Rightarrow> number \<Rightarrow> bool" where
  "less_number a b = (a \<le> b \<and> \<not> b \<le> a)"

instance
proof
  fix x y z :: number
  show "(x < y) = (x \<le> y \<and> \<not> y \<le> x)" by (simp add: less_number_def)
  show "x \<le> x" by (cases x) simp_all
  show "x \<le> y \<Longrightarrow> y \<le> z \<Longrightarrow> x \<le> z" by (cases x; cases y; cases z) simp_all
  show "x \<le> y \<Longrightarrow> y \<le> x \<Longrightarrow> x = y" by (cases x; cases y) simp_all
  show "x \<le> y \<or> y \<le> x" by (cases x; cases y) auto
qed

end

instantiation number :: uminus
begin

fun uminus_number :: "number \<Rightarrow> number" where
  "uminus_number NegInf = PosInf"
| "uminus_number (Num x) = Num (- x)"
| "uminus_number PosInf = NegInf"

instance ..

end

text \<open>\<^verbatim>\<open>x == 0\<close> on a float: true of 0.0 and -0.0, false of nan.\<close>

definition is_zero :: "pyfloat \<Rightarrow> bool" where
  "is_zero x = (x = Fl (Num 0))"

subsection \<open>Records of the store\<close>

text \<open>
  Texts of the store (ids, tag names, dates) are only compared and handed to library
  functions, so they are \<open>string\<close> in any encoding that keeps them apart.
  One element of a row's \<^verbatim>\<open>tags_json\<close>; the key \<^verbatim>\<open>name\<close> may be absent.
\<close>

record tag =
  tag_name :: "string option"
  tag_category :: string

text \<open>A row of the table \<^verbatim>\<open>logs\<close>, as the dictionaries built by the queries.\<close>

record log =
  log_id :: string
  content :: string
  timestamp :: int
  tags :: "tag list"
  source :: "string option"
  summary :: "string option"

text \<open>
  An entry of \<^verbatim>\<open>results\<close>: a log dictionary with the key
  \<^verbatim>\<open>retrieval_score\<close> set. Entries built by the semantic channel have no
  \<^verbatim>\<open>source\<close> and \<^verbatim>\<open>summary\<close> keys, which is \<open>None\<close> here.
\<close>

record retrieved_log = log +
  retrieval_score :: number

text \<open>A row of the table \<^verbatim>\<open>log_embeddings\<close>.\<close>

record embedding_row =
  le_log_id :: string
  le_embedding :: "pyfloat list"

text \<open>A dictionary returned by \<^verbatim>\<open>get_log_embeddings\<close>.\<close>

record log_embedding =
  emb_id :: string
  embedding :: "pyfloat list"
  emb_content :: string
  emb_timestamp :: int
  emb_tags :: "tag list"

text \<open>
  The intent dictionary. \<^verbatim>\<open>semantic_query\<close> and \<^verbatim>\<open>needs_rag\<close>
  may be absent (\<^verbatim>\<open>intent.get(key, default)\<close>). A date range is a pair of
  texts; a range without one of its keys raises inside the \<^verbatim>\<open>try\<close> of the date
  channel, as a range whose texts do not parse does.
\<close>

record intent =
  date_range :: "(string \<times> string) option"
  intent_tags :: "string list"
  semantic_query :: "string option"
  needs_rag :: "bool option"

datatype query = AllLogs | LogsByDateRange | LogsByTags | LogEmbeddings

text \<open>
  Everything the code reads from outside. The two tables; whether a query raises (each
  query opens its own connection; decoding errors of rows count as errors of the query);
  the embedding service; \<^verbatim>\<open>datetime.strptime(s, "%Y-%m-%d")\<close>, giving the number
  of the day (\<^verbatim>\<open>toordinal\<close>), and \<^verbatim>\<open>int(d.timestamp() * 1000)\<close> for local
  midnight of a day, both of which may raise; \<^verbatim>\<open>str.lower\<close>; the numpy
  operations \<^verbatim>\<open>np.dot\<close> (on arrays of the same length),
  \<^verbatim>\<open>np.linalg.norm\<close>, \<^verbatim>\<open>*\<close> and \<^verbatim>\<open>/\<close>; and \<^verbatim>\<open>+\<close> and
  \<^verbatim>\<open>*\<close> of Python floats on scores, where their result is a number.
\<close>

record env =
  logs_table :: "log list"
  log_embeddings_table :: "embedding_row list"
  db_error :: "query \<Rightarrow> error option"
  compute_embedding :: "string \<Rightarrow> error + pyfloat list"
  strptime :: "string \<Rightarrow> error + int"
  timestamp_ms :: "int \<Rightarrow> error + int"
  str_lower :: "string \<Rightarrow> string"
  np_dot :: "pyfloat list \<Rightarrow> pyfloat list \<Rightarrow> pyfloat"
  np_norm :: "pyfloat list \<Rightarrow> pyfloat"
  np_mul :: "pyfloat \<Rightarrow> pyfloat \<Rightarrow> pyfloat"
  np_div :: "pyfloat \<Rightarrow> pyfloat \<Rightarrow> pyfloat"
  float_add :: "number \<Rightarrow> number \<Rightarrow> number"
  float_mul :: "number \<Rightarrow> number \<Rightarrow> number"

section \<open>Cosine similarity\<close>

text \<open>
  \<^verbatim>\<open>np.dot\<close> of two one-dimensional arrays raises \<^verbatim>\<open>ValueError\<close>
  when their lengths differ; it is evaluated first. A division of numpy floats does not
  raise.
\<close>

definition cosine_similarity :: "env \<Rightarrow> pyfloat list \<Rightarrow> pyfloat list \<Rightarrow> error + pyfloat" where
  "cosine_similarity e vec1 vec2 =
     (if length vec1 \<noteq> length vec2 then Inl ValueError
      else let d = np_dot e vec1 vec2; norm1 = np_norm e vec1; norm2 = np_norm e vec2
           in if is_zero norm1 \<or> is_zero norm2 then Inr (Fl (Num 0))
              else Inr (np_div e d (np_mul e norm1 norm2)))"

section \<open>Database access layer\<close>

text \<open>
  \<^verbatim>\<open>ORDER BY timestamp DESC\<close>. SQL leaves the order of rows with equal
  timestamps open; the model keeps them in table order.
\<close>

definition order_by_timestamp_desc :: "log list \<Rightarrow> log list" where
  "order_by_timestamp_desc rows = sort_key (\<lambda>r. - timestamp r) rows"

text \<open>\<^verbatim>\<open>LIMIT ?\<close>: a negative limit is no limit in SQLite.\<close>

definition sql_limit :: "int \<Rightarrow> 'a list \<Rightarrow> 'a list" where
  "sql_limit n rows = (if n < 0 then rows else take (nat n) rows)"

definition get_all_logs :: "env \<Rightarrow> int \<Rightarrow> error + log list" where
  "get_all_logs e row_limit =
     (case db_error e AllLogs of
        Some err \<Rightarrow> Inl err
      | None \<Rightarrow> Inr (sql_limit row_limit (order_by_timestamp_desc (logs_table e))))"

definition get_logs_by_date_range :: "env \<Rightarrow> int \<Rightarrow> int \<Rightarrow> error + log list" where
  "get_logs_by_date_range e start_ts end_ts =
     (case db_error e LogsByDateRange of
        Some err \<Rightarrow> Inl err
      | None \<Rightarrow> Inr (order_by_timestamp_desc
                  (filter (\<lambda>r. start_ts \<le> timestamp r \<and> timestamp r \<le> end_ts) (logs_table e))))"

text \<open>\<^verbatim>\<open>t.get("name", "")\<close>\<close>

definition get_name :: "tag \<Rightarrow> string" where
  "get_name t = (case tag_name t of None \<Rightarrow> [] | Some n \<Rightarrow> n)"

definition tag_match :: "env \<Rightarrow> string list \<Rightarrow> log \<Rightarrow> bool" where
  "tag_match e tag_names r =
     (let tag_names_lower = map (str_lower e) tag_names;
          tag_names_in_log = map (\<lambda>t. str_lower e (get_name t)) (tags r)
      in list_ex (\<lambda>t. t \<in> set tag_names_lower) tag_names_in_log)"

definition get_logs_by_tags :: "env \<Rightarrow> string list \<Rightarrow> error + log list" where
  "get_logs_by_tags e tag_names =
     (case db_error e LogsByTags of
        Some err \<Rightarrow> Inl err
      | None \<Rightarrow> Inr (filter (tag_match e tag_names) (order_by_timestamp_desc (logs_table e))))"

text \<open>
  \<^verbatim>\<open>log_embeddings le JOIN logs l ON le.log_id = l.id ORDER BY l.timestamp DESC\<close>
\<close>

definition join_row :: "embedding_row \<Rightarrow> log \<Rightarrow> log_embedding" where
  "join_row le l =
     \<lparr>emb_id = le_log_id le, embedding = le_embedding le, emb_content = content l,
      emb_timestamp = timestamp l, emb_tags = tags l\<rparr>"

definition get_log_embeddings :: "env \<Rightarrow> error + log_embedding list" where
  "get_log_embeddings e =
     (case db_error e LogEmbeddings of
        Some err \<Rightarrow> Inl err
      | None \<Rightarrow> Inr (sort_key (\<lambda>r. - emb_timestamp r)
                  (concat (map (\<lambda>le. map (join_row le)
                                       (filter (\<lambda>l. log_id l = le_log_id le) (logs_table e)))
                               (log_embeddings_table e)))))"

section \<open>Multi-path retrieval\<close>

definition with_score :: "log \<Rightarrow> number \<Rightarrow> retrieved_log" where
  "with_score l s =
     \<lparr>log_id = log_id l, content = content l, timestamp = timestamp l, tags = tags l,
      source = source l, summary = summary l, retrieval_score = s\<rparr>"

definition from_embedding :: "log_embedding \<Rightarrow> number \<Rightarrow> retrieved_log" where
  "from_embedding le s =
     \<lparr>log_id = emb_id le, content = emb_content le, timestamp = emb_timestamp le,
      tags = emb_tags le, source = None, summary = None, retrieval_score = s\<rparr>"

text \<open>
  The inner loop \<^verbatim>\<open>for r in results: if r["id"] == i: r[...] += d; break\<close>: only
  the first entry with the id is changed.
\<close>

fun boost :: "env \<Rightarrow> string \<Rightarrow> number \<Rightarrow> retrieved_log list \<Rightarrow> retrieved_log list" where
  "boost e i d [] = []"
| "boost e i d (r # rs) =
     (if log_id r = i then r\<lparr>retrieval_score := float_add e (retrieval_score r) d\<rparr> # rs
      else r # boost e i d rs)"

text \<open>The state of the loops: \<^verbatim>\<open>results\<close> and \<^verbatim>\<open>seen_ids\<close>.\<close>

type_synonym acc = "retrieved_log list \<times> string set"

definition date_step :: "acc \<Rightarrow> log \<Rightarrow> acc" where
  "date_step st l =
     (case st of (results, seen_ids) \<Rightarrow>
        if log_id l \<notin> seen_ids
        then (results @ [with_score l (Num 1)], insert (log_id l) seen_ids)
        else (results, seen_ids))"

text \<open>
  \<^verbatim>\<open>end + timedelta(days=1)\<close> raises \<^verbatim>\<open>OverflowError\<close> past the last day
  of the year 9999, whose number is 3652059.
\<close>

definition plus_one_day :: "int \<Rightarrow> error + int" where
  "plus_one_day d = (if d + 1 > 3652059 then Inl OverflowError else Inr (d + 1))"

text \<open>
  The body of the \<^verbatim>\<open>try\<close> of the date channel up to the query: the rows of the
  range, or the exception that ends it. \<open>None\<close> when the intent has no range.
\<close>

definition date_query :: "env \<Rightarrow> intent \<Rightarrow> (error + log list) option" where
  "date_query e i =
     (case date_range i of
        None \<Rightarrow> None
      | Some (s_start, s_end) \<Rightarrow> Some
          (case strptime e s_start of
             Inl err \<Rightarrow> Inl err
           | Inr start_d \<Rightarrow>
               (case strptime e s_end of
                  Inl err \<Rightarrow> Inl err
                | Inr end_d \<Rightarrow>
                    (case plus_one_day end_d of
                       Inl err \<Rightarrow> Inl err
                     | Inr end_d1 \<Rightarrow>
                         (case timestamp_ms e start_d of
                            Inl err \<Rightarrow> Inl err
                          | Inr start_ts \<Rightarrow>
                              (case timestamp_ms e end_d1 of
                                 Inl err \<Rightarrow> Inl err
                               | Inr end_ts \<Rightarrow> get_logs_by_date_range e start_ts end_ts))))))"

text \<open>An exception inside the \<^verbatim>\<open>try\<close> is logged and the channel adds nothing.\<close>

definition date_channel :: "env \<Rightarrow> intent \<Rightarrow> acc \<Rightarrow> acc" where
  "date_channel e i st =
     (case date_query e i of
        None \<Rightarrow> st
      | Some (Inl err) \<Rightarrow> st
      | Some (Inr date_logs) \<Rightarrow> foldl date_step st date_logs)"

definition tag_step :: "env \<Rightarrow> acc \<Rightarrow> log \<Rightarrow> acc" where
  "tag_step e st l =
     (case st of (results, seen_ids) \<Rightarrow>
        if log_id l \<in> seen_ids
        then (boost e (log_id l) (Num 0.3) results, seen_ids)
        else (results @ [with_score l (Num 0.3)], insert (log_id l) seen_ids))"

text \<open>The tag channel has no \<^verbatim>\<open>try\<close>: an exception of the query leaves the function.\<close>

definition tag_channel :: "env \<Rightarrow> intent \<Rightarrow> acc \<Rightarrow> error + acc" where
  "tag_channel e i st =
     (if intent_tags i = [] then Inr st
      else (case get_logs_by_tags e (intent_tags i) of
              Inl err \<Rightarrow> Inl err
            | Inr tag_logs \<Rightarrow> Inr (foldl (tag_step e) st tag_logs)))"

text \<open>
  One tuple of the semantic loop, with its similarity. \<^verbatim>\<open>sim > 0.3\<close> is false
  of nan.
\<close>

definition semantic_step :: "env \<Rightarrow> pyfloat \<Rightarrow> acc \<Rightarrow> log_embedding \<Rightarrow> acc" where
  "semantic_step e sim st le =
     (case st of (results, seen_ids) \<Rightarrow>
        (case sim of
           NaN \<Rightarrow> (results, seen_ids)
         | Fl s \<Rightarrow>
             if s > Num 0.3
             then (if emb_id le \<in> seen_ids
                   then (boost e (emb_id le) (float_mul e s (Num 0.7)) results, seen_ids)
                   else (results @ [from_embedding le (float_mul e s (Num 0.7))],
                         insert (emb_id le) seen_ids))
             else (results, seen_ids)))"

text \<open>
  The loop over \<^verbatim>\<open>log_embeddings\<close> inside the \<^verbatim>\<open>try\<close>: an exception of
  \<^verbatim>\<open>cosine_similarity\<close> ends the loop, and what was accumulated before stays.
\<close>

fun semantic_loop :: "env \<Rightarrow> pyfloat list \<Rightarrow> acc \<Rightarrow> log_embedding list \<Rightarrow> acc" where
  "semantic_loop e q st [] = st"
| "semantic_loop e q st (le # les) =
     (case cosine_similarity e q (embedding le) of
        Inl err \<Rightarrow> st
      | Inr sim \<Rightarrow> semantic_loop e q (semantic_step e sim st le) les)"

definition semantic_channel :: "env \<Rightarrow> string \<Rightarrow> intent \<Rightarrow> acc \<Rightarrow> acc" where
  "semantic_channel e raw_query i st =
     (if needs_rag i = Some False then st
      else (case compute_embedding e (case semantic_query i of None \<Rightarrow> raw_query | Some q \<Rightarrow> q) of
              Inl err \<Rightarrow> st
            | Inr query_embedding \<Rightarrow>
                (case get_log_embeddings e of
                   Inl err \<Rightarrow> st
                 | Inr log_embeddings \<Rightarrow> semantic_loop e query_embedding st log_embeddings)))"

definition fallback :: "env \<Rightarrow> retrieved_log list \<Rightarrow> error + retrieved_log list" where
  "fallback e results =
     (if results = []
      then (case get_all_logs e 20 of
              Inl err \<Rightarrow> Inl err
            | Inr recent \<Rightarrow> Inr (map (\<lambda>l. with_score l (Num 0.1)) recent))
      else Inr results)"

text \<open>
  \<^verbatim>\<open>results.sort(key=score, reverse=True)\<close> is stable: entries of equal score keep
  their order. \<^verbatim>\<open>results[:20]\<close> follows.
\<close>

definition finalize :: "retrieved_log list \<Rightarrow> retrieved_log list" where
  "finalize results = take 20 (sort_key (\<lambda>r. - retrieval_score r) results)"

text \<open>The accumulated \<^verbatim>\<open>results\<close> before the sort.\<close>

definition accumulate :: "env \<Rightarrow> string \<Rightarrow> intent \<Rightarrow> error + retrieved_log list" where
  "accumulate e raw_query i =
     (case tag_channel e i (date_channel e i ([], {})) of
        Inl err \<Rightarrow> Inl err
      | Inr st \<Rightarrow> fallback e (fst (semantic_channel e raw_query i st)))"

definition retrieve_logs :: "env \<Rightarrow> string \<Rightarrow> intent \<Rightarrow> error + retrieved_log list" where
  "retrieve_logs e raw_query i =
     (case accumulate e raw_query i of
        Inl err \<Rightarrow> Inl err
      | Inr results \<Rightarrow> Inr (finalize results))"

section \<open>JSON extraction from model output\<close>















section \<open>Notions used in the statements\<close>

text \<open>\<^verbatim>\<open>seen_ids\<close> holds the ids of \<^verbatim>\<open>results\<close>, each of them once.\<close>

definition consistent :: "acc \<Rightarrow> bool" where
  "consistent st = (distinct (map log_id (fst st)) \<and> snd st = set (map log_id (fst st)))"

text \<open>The score an id has in \<^verbatim>\<open>results\<close>, if it has an entry.\<close>

definition lookup_score :: "string \<Rightarrow> retrieved_log list \<Rightarrow> number option" where
  "lookup_score i rs = map_option retrieval_score (find (\<lambda>r. log_id r = i) rs)"

text \<open>
  A contribution to the score of an id: added to the score the id has, or the score of a
  fresh entry.
\<close>

fun contribute :: "env \<Rightarrow> number option \<Rightarrow> number \<Rightarrow> number option" where
  "contribute e None c = Some c"
| "contribute e (Some s) c = Some (float_add e s c)"

text \<open>The row an entry of \<^verbatim>\<open>results\<close> was made from.\<close>

definition to_log :: "retrieved_log \<Rightarrow> log" where
  "to_log r =
     \<lparr>log_id = log_id r, content = content r, timestamp = timestamp r, tags = tags r,
      source = source r, summary = summary r\<rparr>"

text \<open>
  The tuples the semantic loop gets through: those before the first one on which
  \<^verbatim>\<open>cosine_similarity\<close> raises.
\<close>

definition scanned :: "pyfloat list \<Rightarrow> log_embedding list \<Rightarrow> log_embedding list" where
  "scanned q les = takeWhile (\<lambda>le. length (embedding le) = length q) les"

text \<open>
  The similarity the loop computes for a tuple, as a number, where it passes
  \<^verbatim>\<open>sim > 0.3\<close>.
\<close>

definition passing :: "env \<Rightarrow> pyfloat list \<Rightarrow> log_embedding \<Rightarrow> number option" where
  "passing e q le =
     (case cosine_similarity e q (embedding le) of
        Inl err \<Rightarrow> None
      | Inr NaN \<Rightarrow> None
      | Inr (Fl s) \<Rightarrow> if s > Num 0.3 then Some s else None)"

text \<open>
  The contributions of a list of tuples to the score of an id, in the order of the list:
  \<^verbatim>\<open>sim * 0.7\<close> for every tuple of the id that passes the threshold.
\<close>

definition contributions :: "env \<Rightarrow> pyfloat list \<Rightarrow> string \<Rightarrow> log_embedding list \<Rightarrow> number list" where
  "contributions e q j les =
     concat (map (\<lambda>le. case passing e q le of
                          Some s \<Rightarrow> if emb_id le = j then [float_mul e s (Num 0.7)] else []
                        | None \<Rightarrow> []) les)"

text \<open>
  The rows the date channel iterates over, the logs the tag channel iterates over, and
  the tuples of the semantic channel that pass the threshold.
\<close>

definition date_hits :: "env \<Rightarrow> intent \<Rightarrow> log list" where
  "date_hits e i = (case date_query e i of Some (Inr date_logs) \<Rightarrow> date_logs | _ \<Rightarrow> [])"

definition tag_hits :: "env \<Rightarrow> intent \<Rightarrow> log list" where
  "tag_hits e i =
     (if intent_tags i = [] then []
      else (case get_logs_by_tags e (intent_tags i) of Inl err \<Rightarrow> [] | Inr ls \<Rightarrow> ls))"

definition semantic_hits :: "env \<Rightarrow> string \<Rightarrow> intent \<Rightarrow> log_embedding list" where
  "semantic_hits e raw_query i =
     (if needs_rag i = Some False then []
      else (case compute_embedding e (case semantic_query i of None \<Rightarrow> raw_query | Some q \<Rightarrow> q) of
              Inl err \<Rightarrow> []
            | Inr qe \<Rightarrow>
                (case get_log_embeddings e of
                   Inl err \<Rightarrow> []
                 | Inr les \<Rightarrow> filter (\<lambda>le. passing e qe le \<noteq> None) (scanned qe les))))"

text \<open>
  Two laws of float arithmetic in rounding to nearest that the scores rest on: adding a
  number that is not negative does not lower a score, and the product of a similarity
  above 0.3 with 0.7 is not negative.
\<close>

definition monotone_floats :: "env \<Rightarrow> bool" where
  "monotone_floats e =
     ((\<forall>a b. Num 0 \<le> b \<longrightarrow> a \<le> float_add e a b) \<and>
      (\<forall>s. Num 0.3 < s \<longrightarrow> Num 0 \<le> float_mul e s (Num 0.7)))"




section \<open>An example corpus\<close>

text \<open>
  Instances of the library parameters for the examples. The arithmetic is exact on
  finite operands; on the examples its results are floats, or are only compared with
  floats far from them. \<open>ascii_lower\<close> folds the letters A to Z, as
  \<^verbatim>\<open>str.lower\<close> does on ASCII text. The calendar knows three dates and counts
  days in UTC.
\<close>

definition vec :: "real list \<Rightarrow> pyfloat list" where
  "vec xs = map (\<lambda>x. Fl (Num x)) xs"

fun finite_value :: "pyfloat \<Rightarrow> real option" where
  "finite_value (Fl (Num x)) = Some x"
| "finite_value f = None"

definition finite_values :: "pyfloat list \<Rightarrow> real list option" where
  "finite_values v = (if list_all (\<lambda>f. finite_value f \<noteq> None) v
                      then Some (map (\<lambda>f. the (finite_value f)) v) else None)"

definition exact_dot :: "pyfloat list \<Rightarrow> pyfloat list \<Rightarrow> pyfloat" where
  "exact_dot v1 v2 =
     (case (finite_values v1, finite_values v2) of
        (Some xs, Some ys) \<Rightarrow> Fl (Num (sum_list (map (\<lambda>(x, y). x * y) (zip xs ys))))
      | _ \<Rightarrow> NaN)"

definition exact_norm :: "pyfloat list \<Rightarrow> pyfloat" where
  "exact_norm v =
     (case finite_values v of
        Some xs \<Rightarrow> Fl (Num (sqrt (sum_list (map (\<lambda>x. x * x) xs))))
      | None \<Rightarrow> NaN)"

definition exact_np_mul :: "pyfloat \<Rightarrow> pyfloat \<Rightarrow> pyfloat" where
  "exact_np_mul a b =
     (case (finite_value a, finite_value b) of
        (Some x, Some y) \<Rightarrow> Fl (Num (x * y))
      | _ \<Rightarrow> NaN)"

definition exact_np_div :: "pyfloat \<Rightarrow> pyfloat \<Rightarrow> pyfloat" where
  "exact_np_div a b =
     (case (finite_value a, finite_value b) of
        (Some x, Some y) \<Rightarrow> if y = 0 then NaN else Fl (Num (x / y))
      | _ \<Rightarrow> NaN)"

fun exact_add :: "number \<Rightarrow> number \<Rightarrow> number" where
  "exact_add (Num x) (Num y) = Num (x + y)"
| "exact_add NegInf b = NegInf"
| "exact_add a NegInf = NegInf"
| "exact_add a b = PosInf"

fun exact_mul :: "number \<Rightarrow> number \<Rightarrow> number" where
  "exact_mul (Num x) (Num y) = Num (x * y)"
| "exact_mul a b = PosInf"

definition ascii_lower_char :: "char \<Rightarrow> char" where
  "ascii_lower_char c =
     (case map_of (zip ''ABCDEFGHIJKLMNOPQRSTUVWXYZ'' ''abcdefghijklmnopqrstuvwxyz'') c of
        None \<Rightarrow> c
      | Some d \<Rightarrow> d)"

definition ascii_lower :: "string \<Rightarrow> string" where
  "ascii_lower s = map ascii_lower_char s"

definition example_strptime :: "string \<Rightarrow> error + int" where
  "example_strptime s =
     (if s = ''2024-01-01'' then Inr 738886
      else if s = ''2024-01-02'' then Inr 738887
      else if s = ''9999-12-31'' then Inr 3652059
      else Inl ValueError)"

definition example_timestamp_ms :: "int \<Rightarrow> error + int" where
  "example_timestamp_ms d = Inr ((d - 719163) * 86400000)"

text \<open>
  Three logs: \<open>a\<close> is of 1 January 2024, \<open>b\<close> carries the tag CORS and \<open>c\<close> has an
  embedding of similarity 0.6 to the query embedding \<open>[1, 0]\<close>; both are of later
  days. The embedding of \<open>a\<close> is orthogonal to the query embedding.
\<close>

definition mk_log :: "string \<Rightarrow> int \<Rightarrow> string list \<Rightarrow> log" where
  "mk_log i t names =
     \<lparr>log_id = i, content = [], timestamp = t,
      tags = map (\<lambda>n. \<lparr>tag_name = Some n, tag_category = ''Other''\<rparr>) names,
      source = Some ''manual'', summary = None\<rparr>"

definition example_env :: env where
  "example_env =
     \<lparr>logs_table = [mk_log ''a'' 1704070000000 [''Python''], mk_log ''b'' 1704300000000 [''CORS''],
                    mk_log ''c'' 1704400000000 []],
      log_embeddings_table = [\<lparr>le_log_id = ''a'', le_embedding = vec [0, 1]\<rparr>,
                              \<lparr>le_log_id = ''c'', le_embedding = vec [3, 4]\<rparr>],
      db_error = (\<lambda>q. None),
      compute_embedding = (\<lambda>s. Inr (vec [1, 0])),
      strptime = example_strptime,
      timestamp_ms = example_timestamp_ms,
      str_lower = ascii_lower,
      np_dot = exact_dot, np_norm = exact_norm, np_mul = exact_np_mul, np_div = exact_np_div,
      float_add = exact_add, float_mul = exact_mul\<rparr>"

definition example_intent :: intent where
  "example_intent =
     \<lparr>date_range = Some (''2024-01-01'', ''2024-01-01''), intent_tags = [''cors''],
      semantic_query = None, needs_rag = None\<rparr>"

text \<open>What the retrieval returns on the example: \<open>a\<close> (1.0), \<open>c\<close> (0.42), \<open>b\<close> (0.3).\<close>

definition example_result :: "retrieved_log list" where
  "example_result =
     [with_score (mk_log ''a'' 1704070000000 [''Python'']) (Num 1),
      from_embedding
        \<lparr>emb_id = ''c'', embedding = vec [3, 4], emb_content = [], emb_timestamp = 1704400000000,
         emb_tags = []\<rparr> (Num 0.42),
      with_score (mk_log ''b'' 1704300000000 [''CORS'']) (Num 0.3)]"

text \<open>What \<^verbatim>\<open>get_log_embeddings\<close> returns on the example corpus.\<close>

definition example_rows :: "log_embedding list" where
  "example_rows =
     [\<lparr>emb_id = ''c'', embedding = vec [3, 4], emb_content = [], emb_timestamp = 1704400000000,
       emb_tags = []\<rparr>,
      \<lparr>emb_id = ''a'', embedding = vec [0, 1], emb_content = [], emb_timestamp = 1704070000000,
       emb_tags = [\<lparr>tag_name = Some ''Python'', tag_category = ''Other''\<rparr>]\<rparr>]"

text \<open>Two logs whose tags differ from the tag React by case and by a longer name.\<close>

definition tagged_env :: env where
  "tagged_env =
     example_env\<lparr>logs_table := [mk_log ''r'' 10 [''react''], mk_log ''n'' 20 [''React Native'']]\<rparr>"

text \<open>
  The example corpus with three embeddings, the second of another dimension than the
  query embedding.
\<close>

definition mixed_dimension_env :: env where
  "mixed_dimension_env =
     example_env\<lparr>log_embeddings_table :=
       [\<lparr>le_log_id = ''c'', le_embedding = vec [3, 4]\<rparr>, \<lparr>le_log_id = ''b'', le_embedding = vec [1]\<rparr>,
        \<lparr>le_log_id = ''a'', le_embedding = vec [1, 0]\<rparr>]\<rparr>"

definition semantic_intent :: intent where
  "semantic_intent =
     \<lparr>date_range = None, intent_tags = [], semantic_query = Some ''cors'', needs_rag = Some True\<rparr>"

text \<open>The intent that skips the three channels.\<close>

definition empty_intent :: intent where
  "empty_intent = \<lparr>date_range = None, intent_tags = [], semantic_query = None, needs_rag = Some False\<rparr>"

text \<open>The example corpus with the tag query failing.\<close>

definition tag_failure_env :: env where
  "tag_failure_env =
     example_env\<lparr>db_error := (\<lambda>q. if q = LogsByTags then Some DatabaseError else None)\<rparr>"

text \<open>Twenty-one logs of the same day.\<close>

definition crowded_env :: env where
  "crowded_env =
     example_env\<lparr>logs_table :=
       map (\<lambda>i. mk_log i 1704070000000 [])
         [''a'', ''b'', ''c'', ''d'', ''e'', ''f'', ''g'', ''h'', ''i'', ''j'', ''k'', ''l'', ''m'', ''n'',
          ''o'', ''p'', ''q'', ''r'', ''s'', ''t'', ''u''],
       log_embeddings_table := []\<rparr>"

text \<open>
  A corpus of one log whose embedding is \<open>[1, 1, 1]\<close>, which is also the query
  embedding, with the arithmetic of floats on this vector, results written as Python
  prints them: \<^verbatim>\<open>np.linalg.norm([1, 1, 1])\<close> is 1.7320508075688772, its square is
  2.9999999999999996, \<^verbatim>\<open>3.0 / 2.9999999999999996\<close> is 1.0000000000000002 and
  \<^verbatim>\<open>1.0000000000000002 * 0.7\<close> is 0.7000000000000001.
\<close>

definition rounding_env :: env where
  "rounding_env =
     example_env\<lparr>
       logs_table := [mk_log ''a'' 1704070000000 []],
       log_embeddings_table := [\<lparr>le_log_id = ''a'', le_embedding = vec [1, 1, 1]\<rparr>],
       compute_embedding := (\<lambda>s. Inr (vec [1, 1, 1])),
       np_norm := (\<lambda>v. if v = vec [1, 1, 1] then Fl (Num 1.7320508075688772) else exact_norm v),
       np_mul := (\<lambda>a b. if a = Fl (Num 1.7320508075688772) \<and> b = Fl (Num 1.7320508075688772)
                        then Fl (Num 2.9999999999999996) else exact_np_mul a b),
       np_div := (\<lambda>a b. if a = Fl (Num 3) \<and> b = Fl (Num 2.9999999999999996)
                        then Fl (Num 1.0000000000000002) else exact_np_div a b),
       float_mul := (\<lambda>a b. if a = Num 1.0000000000000002 \<and> b = Num 0.7
                           then Num 0.7000000000000001 else exact_mul a b)\<rparr>"

definition date_intent :: intent where
  "date_intent =
     \<lparr>date_range = Some (''2024-01-01'', ''2024-01-01''), intent_tags = [],
      semantic_query = None, needs_rag = Some False\<rparr>"






section \<open>Properties of the order of numbers\<close>

lemma less_number_simps [simp]:
  "Num x < Num y \<longleftrightarrow> x < y"
  "NegInf < Num y" "Num x < PosInf" "NegInf < PosInf"
  "\<not> Num x < NegInf" "\<not> PosInf < a" "\<not> a < NegInf"
  by (cases a; auto simp: less_number_def)+

lemma uminus_number_le [simp]: "- a \<le> - b \<longleftrightarrow> b \<le> (a::number)"
  by (cases a; cases b) simp_all

lemma uminus_number_eq [simp]: "- a = - b \<longleftrightarrow> a = (b::number)"
  by (cases a; cases b) simp_all

section \<open>Properties of cosine similarity\<close>

lemma sqrt_25: "sqrt 25 = 5"
  using real_sqrt_abs[of 5] by simp

lemmas arith_defs = vec_def finite_values_def exact_dot_def exact_norm_def exact_np_mul_def
  exact_np_div_def is_zero_def




text \<open>
  In float arithmetic the similarity of a vector to itself need not be 1.0: for
  \<open>[1, 1, 1]\<close> the code returns 1.0000000000000002.
\<close>

lemma cosine_similarity_self_rounding:
  "cosine_similarity rounding_env (vec [1, 1, 1]) (vec [1, 1, 1]) = Inr (Fl (Num 1.0000000000000002))"
  by (simp add: cosine_similarity_def rounding_env_def example_env_def arith_defs)

section \<open>Properties of the accumulation loops\<close>

lemma map_log_id_boost: "map log_id (boost e i d rs) = map log_id rs"
  by (induction rs) auto

lemma image_log_id_boost: "log_id ` set (boost e i d rs) = log_id ` set rs"
  using map_log_id_boost[of e i d rs] by (metis set_map)

lemma lookup_score_Nil: "lookup_score j [] = None"
  by (simp add: lookup_score_def)

lemma lookup_score_Cons:
  "lookup_score j (r # rs) = (if log_id r = j then Some (retrieval_score r) else lookup_score j rs)"
  by (simp add: lookup_score_def)

lemma lookup_score_None_iff: "lookup_score j rs = None \<longleftrightarrow> j \<notin> set (map log_id rs)"
  by (induction rs) (auto simp: lookup_score_Nil lookup_score_Cons)

lemma lookup_score_absent: "j \<notin> log_id ` set rs \<Longrightarrow> lookup_score j rs = None"
  by (simp add: lookup_score_None_iff)

lemma lookup_score_append:
  "lookup_score j (rs @ [r]) =
     (if j \<in> set (map log_id rs) then lookup_score j rs
      else if log_id r = j then Some (retrieval_score r) else None)"
  by (induction rs) (auto simp: lookup_score_Nil lookup_score_Cons)

lemma lookup_score_boost:
  "lookup_score j (boost e i d rs) =
     (if j = i then map_option (\<lambda>s. float_add e s d) (lookup_score j rs) else lookup_score j rs)"
  by (induction rs) (auto simp: lookup_score_Nil lookup_score_Cons)

lemma lookup_score_member:
  "distinct (map log_id rs) \<Longrightarrow> r \<in> set rs \<Longrightarrow> lookup_score (log_id r) rs = Some (retrieval_score r)"
  by (induction rs) (auto simp: lookup_score_Cons)

lemma contribute_present:
  "j \<in> set (map log_id rs) \<Longrightarrow>
   map_option (\<lambda>s. float_add e s d) (lookup_score j rs) = contribute e (lookup_score j rs) d"
  by (cases "lookup_score j rs") (auto simp: lookup_score_None_iff)

lemma log_id_with_score: "log_id (with_score l s) = log_id l"
  by (simp add: with_score_def)

lemma score_with_score: "retrieval_score (with_score l s) = s"
  by (simp add: with_score_def)

lemma log_id_from_embedding: "log_id (from_embedding le s) = emb_id le"
  by (simp add: from_embedding_def)

lemma score_from_embedding: "retrieval_score (from_embedding le s) = s"
  by (simp add: from_embedding_def)

lemmas entry_simps = log_id_with_score score_with_score log_id_from_embedding score_from_embedding

subsection \<open>The date loop\<close>

lemma date_step_consistent: "consistent st \<Longrightarrow> consistent (date_step st l)"
  by (cases st) (auto simp: consistent_def date_step_def entry_simps)

lemma date_step_ids:
  "consistent st \<Longrightarrow> snd (date_step st l) = insert (log_id l) (snd st)"
  by (cases st) (auto simp: consistent_def date_step_def entry_simps)

lemma date_step_score:
  "consistent st \<Longrightarrow>
   lookup_score j (fst (date_step st l)) =
     (if j \<in> snd st then lookup_score j (fst st) else if log_id l = j then Some (Num 1) else None)"
  by (cases st)
    (auto simp: consistent_def date_step_def entry_simps lookup_score_append
      lookup_score_None_iff[THEN iffD2])

lemma date_step_prefix: "prefix (fst st) (fst (date_step st l))"
  by (cases st) (auto simp: date_step_def)

lemma foldl_date_step:
  "consistent st \<Longrightarrow>
   consistent (foldl date_step st ls) \<and>
   snd (foldl date_step st ls) = snd st \<union> set (map log_id ls) \<and>
   prefix (fst st) (fst (foldl date_step st ls)) \<and>
   (\<forall>j. lookup_score j (fst (foldl date_step st ls)) =
     (if j \<in> snd st then lookup_score j (fst st)
      else if j \<in> set (map log_id ls) then Some (Num 1) else None))"
proof (induction ls arbitrary: st)
  case Nil
  then show ?case by (auto simp: consistent_def lookup_score_None_iff[THEN iffD2])
next
  case (Cons l ls)
  note c = date_step_consistent[OF Cons.prems, of l]
  from Cons.IH[OF c] date_step_prefix[of st l]
  show ?case
    by (auto simp: date_step_ids[OF Cons.prems] date_step_score[OF Cons.prems] elim: prefix_order.trans)
qed

subsection \<open>The tag loop\<close>

lemma tag_step_consistent: "consistent st \<Longrightarrow> consistent (tag_step e st l)"
  by (cases st) (auto simp: consistent_def tag_step_def entry_simps map_log_id_boost image_log_id_boost)

lemma tag_step_ids:
  "consistent st \<Longrightarrow> snd (tag_step e st l) = insert (log_id l) (snd st)"
  by (cases st) (auto simp: consistent_def tag_step_def entry_simps)

lemma tag_step_score:
  "consistent st \<Longrightarrow>
   lookup_score j (fst (tag_step e st l)) =
     (if log_id l = j then contribute e (lookup_score j (fst st)) (Num 0.3)
      else lookup_score j (fst st))"
proof (cases st)
  case (Pair results seen_ids)
  assume "consistent st"
  then have s: "seen_ids = set (map log_id results)" using Pair by (simp add: consistent_def)
  show ?thesis
  proof (cases "log_id l \<in> seen_ids")
    case True
    then show ?thesis
      using Pair s contribute_present[of "log_id l" results e "Num 0.3"]
      by (auto simp: tag_step_def lookup_score_boost)
  next
    case False
    then have "lookup_score (log_id l) results = None"
      using s by (simp add: lookup_score_None_iff)
    then show ?thesis
      using Pair s False by (auto simp: tag_step_def lookup_score_append entry_simps lookup_score_absent)
  qed
qed

lemma tag_step_prefix: "prefix (map log_id (fst st)) (map log_id (fst (tag_step e st l)))"
  by (cases st) (auto simp: tag_step_def map_log_id_boost)

lemma foldl_tag_step:
  "consistent st \<Longrightarrow>
   consistent (foldl (tag_step e) st ls) \<and>
   snd (foldl (tag_step e) st ls) = snd st \<union> set (map log_id ls) \<and>
   prefix (map log_id (fst st)) (map log_id (fst (foldl (tag_step e) st ls))) \<and>
   (\<forall>j. lookup_score j (fst (foldl (tag_step e) st ls)) =
          foldl (contribute e) (lookup_score j (fst st))
            (map (\<lambda>l. Num 0.3) (filter (\<lambda>l. log_id l = j) ls)))"
proof (induction ls arbitrary: st)
  case Nil
  then show ?case by auto
next
  case (Cons l ls)
  note c = tag_step_consistent[OF Cons.prems, of e l]
  from Cons.IH[OF c] tag_step_prefix[of st e l]
  show ?case
    by (auto simp: tag_step_ids[OF Cons.prems] tag_step_score[OF Cons.prems]
        elim: prefix_order.trans)
qed

subsection \<open>The semantic loop\<close>

lemma semantic_step_consistent: "consistent st \<Longrightarrow> consistent (semantic_step e sim st le)"
  by (cases st; cases sim)
    (auto simp: consistent_def semantic_step_def entry_simps map_log_id_boost image_log_id_boost)

lemma semantic_step_prefix:
  "prefix (map log_id (fst st)) (map log_id (fst (semantic_step e sim st le)))"
  by (cases st; cases sim) (auto simp: semantic_step_def map_log_id_boost)

lemma semantic_step_skip:
  "sim = NaN \<or> (\<exists>s. sim = Fl s \<and> \<not> s > Num 0.3) \<Longrightarrow> semantic_step e sim st le = st"
  by (cases st) (auto simp: semantic_step_def)

lemma semantic_step_ids:
  "consistent st \<Longrightarrow> Num 0.3 < s \<Longrightarrow>
   snd (semantic_step e (Fl s) st le) = insert (emb_id le) (snd st)"
  by (cases st) (auto simp: consistent_def semantic_step_def entry_simps)

lemma semantic_step_score:
  assumes "consistent st" and "Num 0.3 < s"
  shows "lookup_score j (fst (semantic_step e (Fl s) st le)) =
     (if emb_id le = j then contribute e (lookup_score j (fst st)) (float_mul e s (Num 0.7))
      else lookup_score j (fst st))"
proof (cases st)
  case (Pair results seen_ids)
  have s: "seen_ids = set (map log_id results)" using assms(1) Pair by (simp add: consistent_def)
  show ?thesis
  proof (cases "emb_id le \<in> seen_ids")
    case True
    then show ?thesis
      using Pair s assms(2) contribute_present[of "emb_id le" results e "float_mul e s (Num 0.7)"]
      by (auto simp: semantic_step_def lookup_score_boost)
  next
    case False
    then have "lookup_score (emb_id le) results = None"
      using s by (simp add: lookup_score_None_iff)
    then show ?thesis
      using Pair s False assms(2) by (auto simp: semantic_step_def lookup_score_append entry_simps lookup_score_absent)
  qed
qed

lemma cosine_similarity_same_length:
  "length (embedding le) = length q \<Longrightarrow> \<exists>sim. cosine_similarity e q (embedding le) = Inr sim"
  by (simp add: cosine_similarity_def Let_def)

lemma cosine_similarity_other_length:
  "length (embedding le) \<noteq> length q \<Longrightarrow> cosine_similarity e q (embedding le) = Inl ValueError"
  by (auto simp: cosine_similarity_def)

lemma passing_cases:
  assumes "cosine_similarity e q (embedding le) = Inr sim"
  shows "(passing e q le = None \<and> semantic_step e sim st le = st) \<or>
         (\<exists>s. passing e q le = Some s \<and> sim = Fl s \<and> Num 0.3 < s)"
proof (cases sim)
  case NaN
  then show ?thesis using assms by (simp add: passing_def semantic_step_skip)
next
  case (Fl s)
  then show ?thesis using assms by (cases "Num 0.3 < s") (simp_all add: passing_def semantic_step_skip)
qed

lemma contributions_Cons:
  "contributions e q j (le # les) =
     (case passing e q le of
        Some s \<Rightarrow> if emb_id le = j then [float_mul e s (Num 0.7)] else []
      | None \<Rightarrow> []) @ contributions e q j les"
  by (simp add: contributions_def)

lemma semantic_loop_props:
  "consistent st \<Longrightarrow>
   consistent (semantic_loop e q st les) \<and>
   snd (semantic_loop e q st les) =
     snd st \<union> emb_id ` {le \<in> set (scanned q les). passing e q le \<noteq> None} \<and>
   prefix (map log_id (fst st)) (map log_id (fst (semantic_loop e q st les))) \<and>
   (\<forall>j. lookup_score j (fst (semantic_loop e q st les)) =
          foldl (contribute e) (lookup_score j (fst st)) (contributions e q j (scanned q les)))"
proof (induction les arbitrary: st)
  case Nil
  then show ?case by (simp add: scanned_def contributions_def)
next
  case (Cons le les)
  show ?case
  proof (cases "length (embedding le) = length q")
    case False
    then show ?thesis
      using Cons.prems by (simp add: cosine_similarity_other_length scanned_def contributions_def)
  next
    case True
    then obtain sim where sim: "cosine_similarity e q (embedding le) = Inr sim"
      using cosine_similarity_same_length by blast
    let ?st = "semantic_step e sim st le"
    have c: "consistent ?st" by (rule semantic_step_consistent[OF Cons.prems])
    have loop: "semantic_loop e q st (le # les) = semantic_loop e q ?st les"
      by (simp add: sim)
    have sc: "scanned q (le # les) = le # scanned q les"
      using True by (simp add: scanned_def)
    note ih = Cons.IH[OF c]
    note pre = semantic_step_prefix[of st e sim le]
    from passing_cases[OF sim, of st] show ?thesis
    proof
      assume a: "passing e q le = None \<and> semantic_step e sim st le = st"
      then have eq: "?st = st" by simp
      from ih show ?thesis
        unfolding loop sc eq using a by (auto simp: contributions_Cons)
    next
      assume "\<exists>s. passing e q le = Some s \<and> sim = Fl s \<and> Num 0.3 < s"
      then obtain s where p: "passing e q le = Some s" and f: "sim = Fl s" and g: "Num 0.3 < s"
        by blast
      from ih pre show ?thesis
        unfolding loop sc f
        by (auto simp: contributions_Cons p semantic_step_ids[OF Cons.prems g]
            semantic_step_score[OF Cons.prems g] elim: prefix_order.trans)
    qed
  qed
qed

section \<open>Properties of the channels\<close>

lemma consistent_empty: "consistent ([], {})"
  by (simp add: consistent_def)

lemma date_channel_consistent: "consistent st \<Longrightarrow> consistent (date_channel e i st)"
  by (auto simp: date_channel_def foldl_date_step split: option.splits sum.splits)

lemma tag_channel_consistent:
  "consistent st \<Longrightarrow> tag_channel e i st = Inr st' \<Longrightarrow>
   consistent st' \<and> prefix (map log_id (fst st)) (map log_id (fst st'))"
  by (auto simp: tag_channel_def foldl_tag_step split: if_splits sum.splits)

lemma semantic_channel_consistent:
  "consistent st \<Longrightarrow>
   consistent (semantic_channel e q i st) \<and>
   prefix (map log_id (fst st)) (map log_id (fst (semantic_channel e q i st)))"
  by (auto simp: semantic_channel_def semantic_loop_props split: sum.splits)

section \<open>Sorting and truncation\<close>

lemma distinct_map_sort_key: "distinct (map f (sort_key g xs)) = distinct (map f xs)"
proof -
  have "mset (map f (sort_key g xs)) = mset (map f xs)" by simp
  then show ?thesis by (rule mset_eq_imp_distinct_iff)
qed

lemma distinct_map_take: "distinct (map f xs) \<Longrightarrow> distinct (map f (take n xs))"
  by (simp add: take_map[symmetric])

lemma distinct_finalize: "distinct (map log_id rs) \<Longrightarrow> distinct (map log_id (finalize rs))"
  by (simp add: finalize_def distinct_map_take distinct_map_sort_key)

lemma sorted_map_const: "\<forall>x\<in>set xs. f x = c \<Longrightarrow> sorted (map f xs)"
  by (induction xs) auto

lemma sort_key_same_key: "\<forall>x\<in>set xs. f x = c \<Longrightarrow> sort_key f xs = xs"
  by (rule sort_key_id_if_sorted) (rule sorted_map_const)


lemma recent_distinct:
  "distinct (map log_id (logs_table e)) \<Longrightarrow> get_all_logs e n = Inr ls \<Longrightarrow>
   distinct (map log_id ls)"
  by (auto simp: get_all_logs_def sql_limit_def order_by_timestamp_desc_def
      distinct_map_take distinct_map_sort_key split: option.splits if_splits)

lemma accumulate_distinct:
  assumes "distinct (map log_id (logs_table e))" and "accumulate e q i = Inr acc"
  shows "distinct (map log_id acc)"
proof -
  obtain st where st: "tag_channel e i (date_channel e i ([], {})) = Inr st"
    and fb: "fallback e (fst (semantic_channel e q i st)) = Inr acc"
    using assms(2) by (auto simp: accumulate_def split: sum.splits)
  have "consistent st"
    using tag_channel_consistent[OF date_channel_consistent[OF consistent_empty] st] by simp
  then have c: "consistent (semantic_channel e q i st)"
    using semantic_channel_consistent by simp
  show ?thesis
  proof (cases "fst (semantic_channel e q i st) = []")
    case True
    then obtain ls where "get_all_logs e 20 = Inr ls" and "acc = map (\<lambda>l. with_score l (Num 0.1)) ls"
      using fb by (auto simp: fallback_def split: sum.splits)
    then show ?thesis
      using recent_distinct[OF assms(1)] by (simp add: o_def log_id_with_score)
  next
    case False
    then have "acc = fst (semantic_channel e q i st)" using fb by (simp add: fallback_def)
    then show ?thesis using c by (simp add: consistent_def)
  qed
qed

text \<open>
  C1. Over a table \<^verbatim>\<open>logs\<close> whose ids are unique, no id stands twice in the
  sequence \<^verbatim>\<open>_retrieve_logs\<close> returns, whichever channels produced the entries.
  (The three channels never insert an id twice; the fallback returns rows of the table.)
\<close>

theorem retrieve_logs_distinct_ids:
  assumes "distinct (map log_id (logs_table e))" and "retrieve_logs e q i = Inr rs"
  shows "distinct (map log_id rs)"
proof -
  obtain acc where acc: "accumulate e q i = Inr acc" and rs: "rs = finalize acc"
    using assms(2) by (auto simp: retrieve_logs_def split: sum.splits)
  show ?thesis unfolding rs by (rule distinct_finalize) (rule accumulate_distinct[OF assms(1) acc])
qed

section \<open>Running the model on the example corpus\<close>

lemmas model_defs = retrieve_logs_def accumulate_def finalize_def fallback_def
  date_channel_def date_query_def plus_one_day_def tag_channel_def semantic_channel_def
  date_step_def tag_step_def semantic_step_def
  get_all_logs_def get_logs_by_date_range_def get_logs_by_tags_def get_log_embeddings_def
  order_by_timestamp_desc_def sql_limit_def tag_match_def get_name_def join_row_def
  with_score_def from_embedding_def cosine_similarity_def Let_def

lemmas example_defs = example_env_def example_intent_def mk_log_def example_strptime_def
  example_timestamp_ms_def
  empty_intent_def tag_failure_env_def crowded_env_def date_intent_def example_result_def
  tagged_env_def mixed_dimension_env_def semantic_intent_def example_rows_def
  ascii_lower_def ascii_lower_char_def

lemma example_retrieve: "retrieve_logs example_env ''q'' example_intent = Inr example_result"
  by (simp add: model_defs example_defs arith_defs sqrt_25)

theorem retrieve_logs_distinct_ids_witness:
  "distinct (map log_id (logs_table example_env)) \<and>
   retrieve_logs example_env ''q'' example_intent = Inr example_result \<and>
   map log_id example_result = [''a'', ''c'', ''b''] \<and>
   distinct (map log_id example_result)"
proof -
  have h: "distinct (map log_id (logs_table example_env))"
    by (simp add: example_defs)
  show ?thesis
    using h example_retrieve retrieve_logs_distinct_ids[OF h example_retrieve]
    by (simp add: example_defs with_score_def from_embedding_def)
qed

section \<open>Finalization\<close>

lemma sorted_desc_finalize:
  "sorted_wrt (\<lambda>a b. retrieval_score a \<ge> retrieval_score b) (finalize rs)"
proof -
  have "sorted (map (\<lambda>r. - retrieval_score r) (sort_key (\<lambda>r. - retrieval_score r) rs))"
    by (rule sorted_sort_key)
  then have "sorted_wrt (\<lambda>a b. retrieval_score a \<ge> retrieval_score b)
               (sort_key (\<lambda>r. - retrieval_score r) rs)"
    by (simp add: sorted_wrt_map)
  then show ?thesis unfolding finalize_def by (rule sorted_wrt_take)
qed

lemma length_finalize: "length (finalize rs) = min 20 (length rs)"
  by (simp add: finalize_def)

lemma finalize_stable:
  "prefix (filter (\<lambda>r. retrieval_score r = k) (finalize rs)) (filter (\<lambda>r. retrieval_score r = k) rs)"
proof -
  let ?s = "sort_key (\<lambda>r. - retrieval_score r) rs"
  have "filter (\<lambda>r. - retrieval_score r = - k) ?s = filter (\<lambda>r. - retrieval_score r = - k) rs"
    by (rule sort_key_stable)
  then have eq: "filter (\<lambda>r. retrieval_score r = k) ?s = filter (\<lambda>r. retrieval_score r = k) rs"
    by simp
  have "prefix (filter (\<lambda>r. retrieval_score r = k) (take 20 ?s)) (filter (\<lambda>r. retrieval_score r = k) ?s)"
    by (rule filter_mono_prefix) (rule take_is_prefix)
  then show ?thesis by (simp add: finalize_def eq)
qed

lemma take_sort_key_least:
  assumes "x \<in># mset xs - mset (take n (sort_key f xs))" and "r \<in> set (take n (sort_key f xs))"
  shows "f r \<le> f x"
proof -
  let ?s = "sort_key f xs"
  have "mset ?s = mset (take n ?s @ drop n ?s)" by simp
  then have "mset xs = mset (take n ?s) + mset (drop n ?s)" by (simp del: append_take_drop_id)
  then have x: "x \<in> set (drop n ?s)"
    using assms(1) by (metis add_diff_cancel_left' set_mset_mset)
  have "sorted (map f (take n ?s @ drop n ?s))" by (simp add: sorted_sort_key)
  then show ?thesis using x assms(2) unfolding map_append sorted_append by auto
qed

lemma take_sort_key_subset: "mset (take n (sort_key f xs)) \<subseteq># mset xs"
proof -
  have "mset (take n (sort_key f xs)) \<subseteq># mset (sort_key f xs)"
    by (metis append_take_drop_id mset_append mset_subset_eq_add_left)
  then show ?thesis by simp
qed

lemma finalize_keeps_best:
  assumes "x \<in># mset rs - mset (finalize rs)" and "r \<in> set (finalize rs)"
  shows "retrieval_score x \<le> retrieval_score r"
  using take_sort_key_least[of x rs 20 "\<lambda>r. - retrieval_score r" r] assms
  by (simp add: finalize_def)

lemma accumulate_order:
  assumes "accumulate e q i = Inr acc"
  shows "\<exists>st. tag_channel e i (date_channel e i ([], {})) = Inr st \<and>
           prefix (map log_id (fst (date_channel e i ([], {})))) (map log_id (fst st)) \<and>
           prefix (map log_id (fst st)) (map log_id (fst (semantic_channel e q i st))) \<and>
           fallback e (fst (semantic_channel e q i st)) = Inr acc"
proof -
  obtain st where st: "tag_channel e i (date_channel e i ([], {})) = Inr st"
    and fb: "fallback e (fst (semantic_channel e q i st)) = Inr acc"
    using assms by (auto simp: accumulate_def split: sum.splits)
  note t = tag_channel_consistent[OF date_channel_consistent[OF consistent_empty] st]
  from t semantic_channel_consistent[of st e q i] st fb show ?thesis by blast
qed

text \<open>
  C2. Whatever the intent, the returned sequence is the accumulated \<^verbatim>\<open>results\<close>
  sorted by \<^verbatim>\<open>retrieval_score\<close> descending and cut to 20 entries: it has
  \<open>min 20 n\<close> entries, all of them accumulated ones, no dropped entry outscores a kept one,
  and entries of equal score stand in the order they have in \<^verbatim>\<open>results\<close>. That
  order is insertion order: the ids after the date channel are a prefix of those after the
  tag channel, which are a prefix of those after the semantic channel; the fallback fills
  an empty list only.
\<close>

theorem retrieve_logs_sorted_stable_capped:
  assumes "retrieve_logs e q i = Inr rs"
  shows "\<exists>acc st.
           tag_channel e i (date_channel e i ([], {})) = Inr st \<and>
           prefix (map log_id (fst (date_channel e i ([], {})))) (map log_id (fst st)) \<and>
           prefix (map log_id (fst st)) (map log_id (fst (semantic_channel e q i st))) \<and>
           fallback e (fst (semantic_channel e q i st)) = Inr acc \<and>
           rs = take 20 (sort_key (\<lambda>r. - retrieval_score r) acc) \<and>
           length rs = min 20 (length acc) \<and>
           sorted_wrt (\<lambda>a b. retrieval_score a \<ge> retrieval_score b) rs \<and>
           mset rs \<subseteq># mset acc \<and>
           (\<forall>x r. x \<in># mset acc - mset rs \<and> r \<in> set rs \<longrightarrow> retrieval_score x \<le> retrieval_score r) \<and>
           (\<forall>k. prefix (filter (\<lambda>r. retrieval_score r = k) rs)
                       (filter (\<lambda>r. retrieval_score r = k) acc))"
proof -
  obtain acc where acc: "accumulate e q i = Inr acc" and rs: "rs = finalize acc"
    using assms by (auto simp: retrieve_logs_def split: sum.splits)
  obtain st where st: "tag_channel e i (date_channel e i ([], {})) = Inr st"
    "prefix (map log_id (fst (date_channel e i ([], {})))) (map log_id (fst st))"
    "prefix (map log_id (fst st)) (map log_id (fst (semantic_channel e q i st)))"
    "fallback e (fst (semantic_channel e q i st)) = Inr acc"
    using accumulate_order[OF acc] by blast
  have sub: "mset rs \<subseteq># mset acc"
    unfolding rs finalize_def by (rule take_sort_key_subset)
  show ?thesis
    using st sub sorted_desc_finalize[of acc] length_finalize[of acc] finalize_stable[of _ acc]
      finalize_keeps_best[of _ acc] finalize_def[of acc]
    unfolding rs by blast
qed

theorem retrieve_logs_sorted_stable_capped_witness:
  "retrieve_logs example_env ''q'' example_intent = Inr example_result \<and>
   map retrieval_score example_result = [Num 1, Num 0.42, Num 0.3] \<and>
   length example_result \<le> 20 \<and>
   sorted_wrt (\<lambda>a b. retrieval_score a \<ge> retrieval_score b) example_result"
proof -
  from retrieve_logs_sorted_stable_capped[OF example_retrieve]
  have "length example_result \<le> 20"
    and "sorted_wrt (\<lambda>a b. retrieval_score a \<ge> retrieval_score b) example_result"
    by auto
  then show ?thesis
    using example_retrieve by (simp add: example_result_def with_score_def from_embedding_def)
qed

section \<open>The fallback\<close>

lemma to_log_with_score: "to_log (with_score l s) = l"
  by (simp add: to_log_def with_score_def)

lemma map_to_log_with_score: "map to_log (map (\<lambda>l. with_score l s) ls) = ls"
  by (simp add: o_def to_log_with_score)

lemma get_all_logs_20:
  "db_error e AllLogs = None \<Longrightarrow>
   get_all_logs e 20 = Inr (take 20 (order_by_timestamp_desc (logs_table e)))"
  by (simp add: get_all_logs_def sql_limit_def)

lemma length_order_by_timestamp_desc: "length (order_by_timestamp_desc ls) = length ls"
  by (simp add: order_by_timestamp_desc_def)

lemma length_recent:
  "length (take 20 (order_by_timestamp_desc (logs_table e))) = min 20 (length (logs_table e))"
  by (simp add: length_order_by_timestamp_desc)

lemma fallback_accumulate:
  assumes "tag_channel e i (date_channel e i ([], {})) = Inr st"
    and "fst (semantic_channel e q i st) = []"
    and "db_error e AllLogs = None"
  shows "accumulate e q i =
           Inr (map (\<lambda>l. with_score l (Num 0.1)) (take 20 (order_by_timestamp_desc (logs_table e))))"
  using assms by (simp add: accumulate_def fallback_def get_all_logs_def sql_limit_def)

lemma finalize_fallback:
  "length ls \<le> 20 \<Longrightarrow> finalize (map (\<lambda>l. with_score l s) ls) = map (\<lambda>l. with_score l s) ls"
proof -
  assume len: "length ls \<le> 20"
  have "sort_key (\<lambda>r. - retrieval_score r) (map (\<lambda>l. with_score l s) ls) = map (\<lambda>l. with_score l s) ls"
    by (rule sort_key_same_key[where c = "- s"]) (auto simp: score_with_score)
  then show ?thesis using len by (simp add: finalize_def)
qed

lemma fallback_retrieve:
  assumes "tag_channel e i (date_channel e i ([], {})) = Inr st"
    and "fst (semantic_channel e q i st) = []"
    and "db_error e AllLogs = None"
  shows "retrieve_logs e q i =
           Inr (map (\<lambda>l. with_score l (Num 0.1)) (take 20 (order_by_timestamp_desc (logs_table e))))"
  using fallback_accumulate[OF assms] by (simp add: retrieve_logs_def finalize_fallback)



lemma recent_sorted:
  "sorted_wrt (\<lambda>a b. timestamp a \<ge> timestamp b) (take 20 (order_by_timestamp_desc ls))"
proof -
  have "sorted (map (\<lambda>l. - timestamp l) (order_by_timestamp_desc ls))"
    unfolding order_by_timestamp_desc_def by (rule sorted_sort_key)
  then have "sorted_wrt (\<lambda>a b. timestamp a \<ge> timestamp b) (order_by_timestamp_desc ls)"
    by (simp add: sorted_wrt_map)
  then show ?thesis by (rule sorted_wrt_take)
qed

lemma recent_subset: "mset (take 20 (order_by_timestamp_desc ls)) \<subseteq># mset ls"
  unfolding order_by_timestamp_desc_def by (rule take_sort_key_subset)

lemma recent_best:
  assumes "l \<in># mset ls - mset (take 20 (order_by_timestamp_desc ls))"
    and "r \<in> set (take 20 (order_by_timestamp_desc ls))"
  shows "timestamp l \<le> timestamp r"
  using take_sort_key_least[of l ls 20 "\<lambda>l. - timestamp l" r] assms
  by (simp add: order_by_timestamp_desc_def)


lemma example_channels_skipped:
  "tag_channel example_env empty_intent (date_channel example_env empty_intent ([], {})) = Inr ([], {})"
  "fst (semantic_channel example_env ''q'' empty_intent ([], {})) = []"
  "db_error example_env AllLogs = None"
  by (simp_all add: model_defs example_defs)

lemma example_fallback:
  "map_sum id (map (\<lambda>r. (log_id r, timestamp r, retrieval_score r)))
     (retrieve_logs example_env ''q'' empty_intent)
     = Inr [(''c'', 1704400000000, Num 0.1), (''b'', 1704300000000, Num 0.1),
            (''a'', 1704070000000, Num 0.1)]"
  by (simp add: model_defs example_defs)




text \<open>
  C10. On the fallback path the returned sequence is what
  \<^verbatim>\<open>get_all_logs(limit=20)\<close> returned, in the order of the store: it has
  \<open>min 20 n\<close> entries for a table of \<open>n\<close> rows, timestamps descend along it, its rows are
  rows of the table, and no row left out is more recent than a row returned. The sort does
  not move entries, since all scores are 0.1.
\<close>

theorem fallback_most_recent_first:
  assumes "tag_channel e i (date_channel e i ([], {})) = Inr st"
    and "fst (semantic_channel e q i st) = []"
    and "db_error e AllLogs = None"
  shows "\<exists>rs. retrieve_logs e q i = Inr rs \<and>
           get_all_logs e 20 = Inr (map to_log rs) \<and>
           map to_log rs = take 20 (order_by_timestamp_desc (logs_table e)) \<and>
           length rs = min 20 (length (logs_table e)) \<and>
           sorted_wrt (\<lambda>a b. timestamp a \<ge> timestamp b) rs \<and>
           mset (map to_log rs) \<subseteq># mset (logs_table e) \<and>
           (\<forall>l r. l \<in># mset (logs_table e) - mset (map to_log rs) \<and> r \<in> set rs
                    \<longrightarrow> timestamp l \<le> timestamp r)"
proof -
  let ?recent = "take 20 (order_by_timestamp_desc (logs_table e))"
  let ?rs = "map (\<lambda>l. with_score l (Num 0.1)) ?recent"
  have to_log: "map to_log ?rs = ?recent" by (rule map_to_log_with_score)
  have r: "retrieve_logs e q i = Inr ?rs" by (rule fallback_retrieve[OF assms])
  have g: "get_all_logs e 20 = Inr (map to_log ?rs)"
    unfolding to_log by (rule get_all_logs_20[OF assms(3)])
  have len: "length ?rs = min 20 (length (logs_table e))"
    unfolding length_map by (rule length_recent)
  have s: "sorted_wrt (\<lambda>a b. timestamp a \<ge> timestamp b) ?rs"
    using recent_sorted[of "logs_table e"] by (simp add: sorted_wrt_map with_score_def)
  have sub: "mset (map to_log ?rs) \<subseteq># mset (logs_table e)"
    unfolding to_log by (rule recent_subset)
  have best: "timestamp l \<le> timestamp r"
    if "l \<in># mset (logs_table e) - mset (map to_log ?rs)" and "r \<in> set ?rs" for l r
  proof -
    from that(2) obtain l' where l': "l' \<in> set ?recent" and t: "timestamp r = timestamp l'"
      by (auto simp: with_score_def)
    from recent_best[of l "logs_table e" l'] that(1) l'
    show ?thesis unfolding to_log t by simp
  qed
  have b: "\<forall>l r. l \<in># mset (logs_table e) - mset (map to_log ?rs) \<and> r \<in> set ?rs
                    \<longrightarrow> timestamp l \<le> timestamp r"
    using best by blast
  show ?thesis
    apply (rule exI[of _ ?rs])
    apply (intro conjI)
          apply (rule r)
         apply (rule g)
        apply (rule to_log)
       apply (rule len)
      apply (rule s)
     apply (rule sub)
    apply (rule b)
    done
qed

lemma crowded_fallback:
  "map_sum id (map log_id) (retrieve_logs crowded_env ''q'' empty_intent)
     = Inr [''a'', ''b'', ''c'', ''d'', ''e'', ''f'', ''g'', ''h'', ''i'', ''j'', ''k'', ''l'', ''m'', ''n'',
          ''o'', ''p'', ''q'', ''r'', ''s'', ''t'']"
  by (simp add: model_defs example_defs)

theorem fallback_most_recent_first_witness:
  "tag_channel example_env empty_intent (date_channel example_env empty_intent ([], {})) = Inr ([], {}) \<and>
   fst (semantic_channel example_env ''q'' empty_intent ([], {})) = [] \<and>
   db_error example_env AllLogs = None \<and>
   map_sum id (map (\<lambda>r. (log_id r, timestamp r, retrieval_score r)))
     (retrieve_logs example_env ''q'' empty_intent)
     = Inr [(''c'', 1704400000000, Num 0.1), (''b'', 1704300000000, Num 0.1),
            (''a'', 1704070000000, Num 0.1)] \<and>
   map_sum id length (retrieve_logs example_env ''q'' empty_intent) = Inr 3"
proof -
  from fallback_most_recent_first[OF example_channels_skipped]
  obtain rs where "retrieve_logs example_env ''q'' empty_intent = Inr rs"
    and "length rs = min 20 (length (logs_table example_env))" by blast
  then have "map_sum id length (retrieve_logs example_env ''q'' empty_intent) = Inr 3"
    by (simp add: example_env_def)
  then show ?thesis using example_channels_skipped example_fallback by simp
qed

section \<open>Tag matching\<close>

lemma tag_match_iff:
  "tag_match e names l \<longleftrightarrow>
     (\<exists>t\<in>set (tags l). \<exists>n\<in>set names. str_lower e (get_name t) = str_lower e n)"
  by (auto simp: tag_match_def Let_def list_ex_iff)

text \<open>
  C8. Where the query succeeds, \<^verbatim>\<open>get_logs_by_tags\<close> returns exactly the rows
  of \<^verbatim>\<open>logs\<close> one of whose tag names equals one of the given names after
  \<^verbatim>\<open>str.lower\<close> of both, whatever \<^verbatim>\<open>str.lower\<close> does to a string. With
  \<^verbatim>\<open>str.lower\<close> taking \<open>React\<close> and \<open>react\<close> to \<open>react\<close> and
  \<open>React Native\<close> to \<open>react native\<close>, a tag \<open>react\<close> matches the name
  \<open>React\<close> and a tag \<open>React Native\<close> does not.
\<close>

theorem get_logs_by_tags_exact_match:
  "(db_error e LogsByTags = None \<longrightarrow>
     (\<exists>rows. get_logs_by_tags e names = Inr rows \<and>
        (\<forall>l. l \<in> set rows \<longleftrightarrow>
               l \<in> set (logs_table e) \<and>
               (\<exists>t\<in>set (tags l). \<exists>n\<in>set names. str_lower e (get_name t) = str_lower e n)))) \<and>
   (str_lower e ''React'' = ''react'' \<and> str_lower e ''react'' = ''react'' \<longrightarrow>
      tag_match e [''React''] (mk_log i ts [''react''])) \<and>
   (str_lower e ''React'' = ''react'' \<and> str_lower e ''React Native'' = ''react native'' \<longrightarrow>
      \<not> tag_match e [''React''] (mk_log i ts [''React Native'']))"
  by (auto simp: get_logs_by_tags_def order_by_timestamp_desc_def tag_match_iff
      mk_log_def get_name_def)

theorem get_logs_by_tags_exact_match_witness:
  "db_error tagged_env LogsByTags = None \<and>
   str_lower tagged_env ''React'' = ''react'' \<and>
   str_lower tagged_env ''react'' = ''react'' \<and>
   str_lower tagged_env ''React Native'' = ''react native'' \<and>
   get_logs_by_tags tagged_env [''React''] = Inr [mk_log ''r'' 10 [''react'']] \<and>
   mk_log ''n'' 20 [''React Native''] \<in> set (logs_table tagged_env) \<and>
   tag_match tagged_env [''React''] (mk_log ''r'' 10 [''react'']) \<and>
   tag_match tagged_env [''React''] (mk_log ''n'' 20 [''React Native'']) = False"
  using get_logs_by_tags_exact_match[of tagged_env "[''React'']" "''r''" 10]
    get_logs_by_tags_exact_match[of tagged_env "[''React'']" "''n''" 20]
  by (simp add: model_defs example_defs)

section \<open>Failures of the channels\<close>

lemma date_channel_failure_absorbed:
  "db_error e LogsByDateRange = Some err \<Longrightarrow> date_channel e i st = st"
  by (simp add: date_channel_def date_query_def get_logs_by_date_range_def
      split: option.splits sum.splits prod.splits)

lemma date_channel_parse_failure_absorbed:
  "date_range i = Some (s1, s2) \<Longrightarrow> strptime e s1 = Inl err \<or> strptime e s2 = Inl err \<Longrightarrow>
   date_channel e i st = st"
  by (auto simp: date_channel_def date_query_def split: sum.splits)

text \<open>
  A range that ends on 31 December 9999 parses, and \<^verbatim>\<open>end + timedelta(days=1)\<close>
  raises \<^verbatim>\<open>OverflowError\<close> inside the \<^verbatim>\<open>try\<close>: the channel adds nothing.
\<close>

lemma date_channel_overflow_absorbed:
  "date_range i = Some (s1, s2) \<Longrightarrow> strptime e s2 = Inr 3652059 \<Longrightarrow> date_channel e i st = st"
  by (auto simp: date_channel_def date_query_def plus_one_day_def split: sum.splits)

lemma date_channel_timestamp_failure_absorbed:
  "date_range i = Some (s1, s2) \<Longrightarrow> strptime e s1 = Inr d1 \<Longrightarrow> timestamp_ms e d1 = Inl err \<Longrightarrow>
   date_channel e i st = st"
  by (auto simp: date_channel_def date_query_def split: sum.splits)

lemma example_overflow:
  "date_query example_env
     \<lparr>date_range = Some (''2024-01-01'', ''9999-12-31''), intent_tags = [],
      semantic_query = None, needs_rag = Some False\<rparr> = Some (Inl OverflowError)"
  by (simp add: model_defs example_defs)

lemma semantic_channel_failure_absorbed:
  "db_error e LogEmbeddings = Some err \<or>
   compute_embedding e (case semantic_query i of None \<Rightarrow> q | Some s \<Rightarrow> s) = Inl err' \<Longrightarrow>
   semantic_channel e q i st = st"
  by (auto simp: semantic_channel_def get_log_embeddings_def split: sum.splits)

lemma tag_channel_failure_raised:
  "intent_tags i \<noteq> [] \<Longrightarrow> db_error e LogsByTags = Some err \<Longrightarrow> retrieve_logs e q i = Inl err"
  by (simp add: retrieve_logs_def accumulate_def tag_channel_def get_logs_by_tags_def)

text \<open>
  C5 fails on the tag channel. The date and the semantic channel run inside
  \<^verbatim>\<open>try\<close>; the tag channel does not, so an exception of
  \<^verbatim>\<open>get_logs_by_tags\<close> leaves \<^verbatim>\<open>_retrieve_logs\<close>: on the example
  corpus with the tag query failing, the retrieval raises instead of going on with the
  semantic channel.
\<close>

theorem tag_channel_failure_propagates:
  "retrieve_logs tag_failure_env ''q'' example_intent = Inl DatabaseError"
  by (simp add: model_defs example_defs)

text \<open>
  An exception inside the semantic loop is absorbed too, but the channel is not left
  without results: the entries accumulated before the tuple of the wrong dimension stay.
\<close>

lemma semantic_failure_keeps_partial:
  "map_sum id (map (\<lambda>r. (log_id r, retrieval_score r)))
     (retrieve_logs mixed_dimension_env ''q'' semantic_intent) = Inr [(''c'', Num 0.42)]"
  by (simp add: model_defs example_defs arith_defs sqrt_25)

section \<open>JSON extraction\<close>







lemma takeWhile_all: "c \<notin> set xs \<Longrightarrow> takeWhile (\<lambda>x. x \<noteq> c) xs = xs"
  by (induction xs) auto











subsection \<open>The fenced block\<close>



















section \<open>Score fusion\<close>

lemma date_channel_hits: "date_channel e i st = foldl date_step st (date_hits e i)"
  by (simp add: date_channel_def date_hits_def split: option.splits sum.splits prod.splits)

lemma tag_channel_hits:
  "tag_channel e i st = Inr st' \<Longrightarrow> st' = foldl (tag_step e) st (tag_hits e i)"
  by (auto simp: tag_channel_def tag_hits_def split: if_splits sum.splits)


lemma scanned_same_length: "le \<in> set (scanned q les) \<Longrightarrow> length (embedding le) = length q"
  unfolding scanned_def by (rule set_takeWhileD[THEN conjunct2])


lemma passing_iff:
  "passing e q le = None \<longleftrightarrow>
     (\<forall>s. cosine_similarity e q (embedding le) = Inr (Fl s) \<longrightarrow> s \<le> Num 0.3)"
  by (auto simp: passing_def split: sum.splits pyfloat.splits)

lemma passing_Some:
  "passing e q le = Some s \<longleftrightarrow> cosine_similarity e q (embedding le) = Inr (Fl s) \<and> Num 0.3 < s"
  by (auto simp: passing_def split: sum.splits pyfloat.splits)







text \<open>
  Nor is a contribution of the semantic channel at most 0.7: the fresh entry of the log
  with embedding \<open>[1, 1, 1]\<close> has the score 0.7000000000000001.
\<close>

lemma semantic_contribution_rounding:
  "map_sum id (map (\<lambda>r. (log_id r, retrieval_score r)))
     (retrieve_logs rounding_env ''q'' semantic_intent) = Inr [(''a'', Num 0.7000000000000001)]"
  "Num 0.7 < Num 0.7000000000000001"
  by (simp_all add: rounding_env_def model_defs example_defs arith_defs)

section \<open>The date range and the cap\<close>

lemma date_query_rows:
  assumes "date_range i = Some (s1, s2)"
    and "strptime e s1 = Inr d1" and "strptime e s2 = Inr d2"
    and "plus_one_day d2 = Inr d3"
    and "timestamp_ms e d1 = Inr t1" and "timestamp_ms e d3 = Inr t2"
    and "db_error e LogsByDateRange = None"
  shows "date_query e i = Some (Inr (order_by_timestamp_desc
           (filter (\<lambda>r. t1 \<le> timestamp r \<and> timestamp r \<le> t2) (logs_table e))))"
  using assms by (simp add: date_query_def get_logs_by_date_range_def)

lemma date_channel_scores:
  "consistent (date_channel e i ([], {})) \<and>
   (\<forall>j. lookup_score j (fst (date_channel e i ([], {}))) =
          (if j \<in> log_id ` set (date_hits e i) then Some (Num 1) else None))"
  using foldl_date_step[OF consistent_empty, of "date_hits e i"]
  by (auto simp: date_channel_hits lookup_score_Nil)

lemma tag_channel_scores:
  assumes "consistent st" and "tag_channel e i st = Inr st'"
  shows "consistent st'"
    and "lookup_score j (fst st') =
           foldl (contribute e) (lookup_score j (fst st))
             (map (\<lambda>l. Num 0.3) (filter (\<lambda>l. log_id l = j) (tag_hits e i)))"
proof -
  note f = foldl_tag_step[OF assms(1), of e "tag_hits e i"]
  have st': "st' = foldl (tag_step e) st (tag_hits e i)" by (rule tag_channel_hits[OF assms(2)])
  show "consistent st'" unfolding st' using f by (rule conjunct1)
  have "\<forall>j. lookup_score j (fst (foldl (tag_step e) st (tag_hits e i))) =
          foldl (contribute e) (lookup_score j (fst st))
            (map (\<lambda>l. Num 0.3) (filter (\<lambda>l. log_id l = j) (tag_hits e i)))"
    using f by (rule conjunct2[OF conjunct2[OF conjunct2]])
  then show "lookup_score j (fst st') =
           foldl (contribute e) (lookup_score j (fst st))
             (map (\<lambda>l. Num 0.3) (filter (\<lambda>l. log_id l = j) (tag_hits e i)))"
    unfolding st' by (rule spec)
qed

lemma contributions_passing:
  assumes "c \<in> set (contributions e q j les)"
  shows "\<exists>s. Num 0.3 < s \<and> c = float_mul e s (Num 0.7)"
proof -
  from assms obtain le where
    c: "c \<in> set (case passing e q le of
                    Some s \<Rightarrow> if emb_id le = j then [float_mul e s (Num 0.7)] else []
                  | None \<Rightarrow> [])"
    unfolding contributions_def by auto
  show ?thesis
  proof (cases "passing e q le")
    case None
    then show ?thesis using c by simp
  next
    case (Some s)
    then have "Num 0.3 < s" by (simp add: passing_Some)
    moreover have "c = float_mul e s (Num 0.7)"
      using c Some by (cases "emb_id le = j") simp_all
    ultimately show ?thesis by blast
  qed
qed

lemma contributions_absent:
  "j \<notin> emb_id ` set (filter (\<lambda>le. passing e q le \<noteq> None) les) \<Longrightarrow> contributions e q j les = []"
  by (induction les) (auto simp: contributions_Cons contributions_def split: option.splits)

lemma semantic_channel_scores:
  assumes "consistent st"
  shows "\<exists>cs. lookup_score j (fst (semantic_channel e q i st)) =
                 foldl (contribute e) (lookup_score j (fst st)) cs \<and>
              (\<forall>c\<in>set cs. \<exists>s. Num 0.3 < s \<and> c = float_mul e s (Num 0.7)) \<and>
              (j \<notin> emb_id ` set (semantic_hits e q i) \<longrightarrow> cs = [])"
proof (cases "needs_rag i \<noteq> Some False \<and>
    (\<exists>qe les. compute_embedding e (case semantic_query i of None \<Rightarrow> q | Some s \<Rightarrow> s) = Inr qe \<and>
       get_log_embeddings e = Inr les)")
  case False
  then have "semantic_channel e q i st = st"
    by (auto simp: semantic_channel_def split: sum.splits)
  then show ?thesis by (intro exI[of _ "[]"]) simp
next
  case True
  then obtain qe les where r: "needs_rag i \<noteq> Some False"
    and qe: "compute_embedding e (case semantic_query i of None \<Rightarrow> q | Some s \<Rightarrow> s) = Inr qe"
    and les: "get_log_embeddings e = Inr les"
    by blast
  have ch: "semantic_channel e q i st = semantic_loop e qe st les"
    using r qe les by (simp add: semantic_channel_def)
  have hits: "semantic_hits e q i = filter (\<lambda>le. passing e qe le \<noteq> None) (scanned qe les)"
    using r qe les by (simp add: semantic_hits_def)
  note p = semantic_loop_props[OF assms, of e qe les]
  have sc: "\<forall>j. lookup_score j (fst (semantic_loop e qe st les)) =
                foldl (contribute e) (lookup_score j (fst st))
                  (contributions e qe j (scanned qe les))"
    using p by (rule conjunct2[OF conjunct2[OF conjunct2]])
  let ?cs = "contributions e qe j (scanned qe les)"
  have 1: "lookup_score j (fst (semantic_channel e q i st)) =
                 foldl (contribute e) (lookup_score j (fst st)) ?cs"
    unfolding ch using sc by (rule spec)
  have 2: "\<forall>c\<in>set ?cs. \<exists>s. Num 0.3 < s \<and> c = float_mul e s (Num 0.7)"
    using contributions_passing by blast
  have 3: "j \<notin> emb_id ` set (semantic_hits e q i) \<longrightarrow> ?cs = []"
    unfolding hits using contributions_absent by blast
  show ?thesis
    by (rule exI[of _ ?cs]) (intro conjI, rule 1, rule 2, rule 3)
qed

lemma foldl_contribute_Some:
  "foldl (contribute e) (Some a) cs = Some (foldl (float_add e) a cs)"
  by (induction cs arbitrary: a) auto

lemma foldl_float_add_mono:
  assumes "\<forall>a b. Num 0 \<le> b \<longrightarrow> a \<le> float_add e a b" and "\<forall>c\<in>set cs. Num 0 \<le> c"
  shows "a \<le> foldl (float_add e) a cs"
  using assms(2)
proof (induction cs arbitrary: a)
  case Nil
  show ?case by simp
next
  case (Cons c cs)
  have "a \<le> float_add e a c" using assms(1) Cons.prems by simp
  also have "\<dots> \<le> foldl (float_add e) (float_add e a c) cs" using Cons by simp
  finally show ?case by simp
qed

lemma date_log_score:
  assumes st: "tag_channel e i (date_channel e i ([], {})) = Inr st"
    and l: "l \<in> set (date_hits e i)"
  shows "\<exists>s. lookup_score (log_id l) (fst (semantic_channel e q i st)) = Some s \<and>
             (monotone_floats e \<longrightarrow> Num 1 \<le> s) \<and>
             (log_id l \<notin> log_id ` set (tag_hits e i) \<and>
              log_id l \<notin> emb_id ` set (semantic_hits e q i) \<longrightarrow> s = Num 1)"
proof -
  let ?j = "log_id l"
  let ?ts = "map (\<lambda>l. Num 0.3) (filter (\<lambda>l. log_id l = ?j) (tag_hits e i))"
  note d = date_channel_scores[of e i]
  have c0: "consistent (date_channel e i ([], {}))" using d by (rule conjunct1)
  have "\<forall>j. lookup_score j (fst (date_channel e i ([], {}))) =
          (if j \<in> log_id ` set (date_hits e i) then Some (Num 1) else None)"
    using d by (rule conjunct2)
  then have s0: "lookup_score ?j (fst (date_channel e i ([], {}))) = Some (Num 1)"
    using l by simp
  note t = tag_channel_scores[OF c0 st]
  have s1: "lookup_score ?j (fst st) = Some (foldl (float_add e) (Num 1) ?ts)"
    unfolding t(2) s0 by (rule foldl_contribute_Some)
  from semantic_channel_scores[OF t(1), of ?j e q i]
  obtain cs where s2: "lookup_score ?j (fst (semantic_channel e q i st)) =
                 foldl (contribute e) (lookup_score ?j (fst st)) cs"
    and pos: "\<forall>c\<in>set cs. \<exists>s. Num 0.3 < s \<and> c = float_mul e s (Num 0.7)"
    and none: "?j \<notin> emb_id ` set (semantic_hits e q i) \<longrightarrow> cs = []"
    by blast
  let ?s = "foldl (float_add e) (foldl (float_add e) (Num 1) ?ts) cs"
  have s3: "lookup_score ?j (fst (semantic_channel e q i st)) = Some ?s"
    unfolding s2 s1 by (rule foldl_contribute_Some)
  have mono: "Num 1 \<le> ?s" if m: "monotone_floats e"
  proof -
    have add: "\<forall>a b. Num 0 \<le> b \<longrightarrow> a \<le> float_add e a b"
      using m unfolding monotone_floats_def by (rule conjunct1)
    have mul: "\<forall>s. Num 0.3 < s \<longrightarrow> Num 0 \<le> float_mul e s (Num 0.7)"
      using m unfolding monotone_floats_def by (rule conjunct2)
    have "\<forall>c\<in>set ?ts. Num 0 \<le> c" by auto
    then have "Num 1 \<le> foldl (float_add e) (Num 1) ?ts"
      by (rule foldl_float_add_mono[OF add])
    moreover have "\<forall>c\<in>set cs. Num 0 \<le> c"
    proof
      fix c assume "c \<in> set cs"
      with pos obtain s where "Num 0.3 < s" and c: "c = float_mul e s (Num 0.7)" by blast
      then have "Num 0 \<le> float_mul e s (Num 0.7)" using mul by simp
      then show "Num 0 \<le> c" unfolding c .
    qed
    then have "foldl (float_add e) (Num 1) ?ts \<le> ?s"
      by (rule foldl_float_add_mono[OF add])
    ultimately show ?thesis by (rule order_trans)
  qed
  have one: "?s = Num 1"
    if "?j \<notin> log_id ` set (tag_hits e i) \<and> ?j \<notin> emb_id ` set (semantic_hits e q i)"
  proof -
    have "log_id x \<noteq> ?j" if "x \<in> set (tag_hits e i)" for x
    proof
      assume "log_id x = ?j"
      then have "?j \<in> log_id ` set (tag_hits e i)" using that by (metis imageI)
      then show False using \<open>?j \<notin> log_id ` set (tag_hits e i) \<and> ?j \<notin> emb_id ` set (semantic_hits e q i)\<close>
        by simp
    qed
    then have "filter (\<lambda>l. log_id l = ?j) (tag_hits e i) = []"
      by (simp add: filter_empty_conv)
    moreover have "cs = []" using that none by simp
    ultimately show ?thesis by simp
  qed
  have m: "monotone_floats e \<longrightarrow> Num 1 \<le> ?s" using mono by (rule impI)
  have o: "log_id l \<notin> log_id ` set (tag_hits e i) \<and>
           log_id l \<notin> emb_id ` set (semantic_hits e q i) \<longrightarrow> ?s = Num 1"
    using one by (rule impI)
  show ?thesis
    by (rule exI[of _ ?s]) (intro conjI, rule s3, rule m, rule o)
qed

lemma set_finalize_subset: "set (finalize acc) \<subseteq> set acc"
proof -
  have "set (take 20 (sort_key (\<lambda>r. - retrieval_score r) acc))
          \<subseteq> set (sort_key (\<lambda>r. - retrieval_score r) acc)"
    by (rule set_take_subset)
  then show ?thesis by (simp add: finalize_def)
qed

lemma kept_score:
  assumes "distinct (map log_id acc)" and "r \<in> set (finalize acc)"
  shows "lookup_score (log_id r) acc = Some (retrieval_score r)"
proof -
  have "r \<in> set acc" using assms(2) set_finalize_subset by blast
  then show ?thesis using lookup_score_member[OF assms(1)] by simp
qed

lemma lookup_score_entry:
  "lookup_score j rs = Some s \<Longrightarrow> \<exists>r\<in>set rs. log_id r = j \<and> retrieval_score r = s"
  by (induction rs) (auto simp: lookup_score_Nil lookup_score_Cons split: if_splits)

text \<open>
  An element stays in the first \<open>n\<close> of a sorted list when at most \<open>n\<close> elements have a
  key that is not above its key.
\<close>

lemma take_sort_key_kept:
  assumes "x \<in> set xs" and "length (filter (\<lambda>y. f y \<le> f x) xs) \<le> n"
  shows "x \<in> set (take n (sort_key f xs))"
proof (rule ccontr)
  let ?ys = "sort_key f xs"
  let ?P = "\<lambda>y. f y \<le> f x"
  assume nin: "x \<notin> set (take n ?ys)"
  have "x \<in> set ?ys" using assms(1) by simp
  then have "x \<in> set (take n ?ys @ drop n ?ys)" by simp
  then have "x \<in> set (take n ?ys) \<union> set (drop n ?ys)" by (simp only: set_append)
  then have xd: "x \<in> set (drop n ?ys)" using nin by blast
  then have "drop n ?ys \<noteq> []" by auto
  then have len: "length (take n ?ys) = n" by simp
  have "sorted (map f (take n ?ys @ drop n ?ys))" by (simp add: sorted_sort_key)
  then have "\<forall>a\<in>set (take n ?ys). f a \<le> f x"
    using xd unfolding map_append sorted_append by auto
  then have ft: "filter ?P (take n ?ys) = take n ?ys" by (simp add: filter_id_conv)
  have "?P x" by simp
  then have "x \<in> set (filter ?P (drop n ?ys))" using xd by simp
  then have "1 \<le> length (filter ?P (drop n ?ys))"
    by (cases "filter ?P (drop n ?ys)") auto
  moreover have "filter ?P ?ys = filter ?P (take n ?ys) @ filter ?P (drop n ?ys)"
    unfolding filter_append[symmetric] by simp
  ultimately have "n + 1 \<le> length (filter ?P ?ys)"
    unfolding ft using len by simp
  moreover have "mset (filter ?P ?ys) = mset (filter ?P xs)" by (simp add: mset_filter)
  then have "length (filter ?P ?ys) = length (filter ?P xs)" by (rule mset_eq_length)
  ultimately show False using assms(2) by simp
qed

lemma finalize_kept:
  assumes "r \<in> set acc"
    and "length (filter (\<lambda>y. retrieval_score r \<le> retrieval_score y) acc) \<le> 20"
  shows "r \<in> set (finalize acc)"
  unfolding finalize_def
  by (rule take_sort_key_kept) (use assms in simp_all)

lemma accumulate_nonempty:
  assumes "tag_channel e i (date_channel e i ([], {})) = Inr st"
    and "fst (semantic_channel e q i st) \<noteq> []"
  shows "accumulate e q i = Inr (fst (semantic_channel e q i st))"
  using assms by (simp add: accumulate_def fallback_def)

lemma date_range_logs_kept:
  assumes "date_range i = Some (s1, s2)"
    and "strptime e s1 = Inr d1" and "strptime e s2 = Inr d2"
    and "plus_one_day d2 = Inr d3"
    and "timestamp_ms e d1 = Inr t1" and "timestamp_ms e d3 = Inr t2"
    and "db_error e LogsByDateRange = None"
    and "retrieve_logs e q i = Inr rs"
    and "l \<in> set (logs_table e)"
    and "t1 \<le> timestamp l" and "timestamp l \<le> t2"
  shows "\<exists>acc s. accumulate e q i = Inr acc \<and> rs = finalize acc \<and>
           lookup_score (log_id l) acc = Some s \<and>
           (monotone_floats e \<longrightarrow> Num 1 \<le> s) \<and>
           (log_id l \<notin> log_id ` set (tag_hits e i) \<and>
            log_id l \<notin> emb_id ` set (semantic_hits e q i) \<longrightarrow> s = Num 1) \<and>
           (\<forall>r\<in>set rs. log_id r = log_id l \<longrightarrow> retrieval_score r = s) \<and>
           (length (filter (\<lambda>r. s \<le> retrieval_score r) acc) \<le> 20
              \<longrightarrow> log_id l \<in> set (map log_id rs)) \<and>
           (length acc \<le> 20 \<longrightarrow> log_id l \<in> set (map log_id rs))"
proof -
  obtain acc0 where acc0: "accumulate e q i = Inr acc0" and rs: "rs = finalize acc0"
    using assms(8) by (auto simp: retrieve_logs_def split: sum.splits)
  obtain st where st: "tag_channel e i (date_channel e i ([], {})) = Inr st"
    using acc0 by (auto simp: accumulate_def split: sum.splits)
  let ?acc = "fst (semantic_channel e q i st)"
  have hits: "date_hits e i = order_by_timestamp_desc
           (filter (\<lambda>r. t1 \<le> timestamp r \<and> timestamp r \<le> t2) (logs_table e))"
    unfolding date_hits_def date_query_rows[OF assms(1-7)] by simp
  have l: "l \<in> set (date_hits e i)"
    unfolding hits using assms(9-11) by (simp add: order_by_timestamp_desc_def)
  from date_log_score[OF st l, of q]
  obtain s where s: "lookup_score (log_id l) ?acc = Some s"
    and ge: "monotone_floats e \<longrightarrow> Num 1 \<le> s"
    and one: "log_id l \<notin> log_id ` set (tag_hits e i) \<and>
              log_id l \<notin> emb_id ` set (semantic_hits e q i) \<longrightarrow> s = Num 1"
    by blast
  from lookup_score_entry[OF s]
  obtain r0 where r0: "r0 \<in> set ?acc" and id0: "log_id r0 = log_id l"
    and sc0: "retrieval_score r0 = s" by blast
  have ne: "?acc \<noteq> []" using r0 by auto
  have acc: "accumulate e q i = Inr ?acc" by (rule accumulate_nonempty[OF st ne])
  then have eq: "acc0 = ?acc" using acc0 by simp
  have rs': "rs = finalize ?acc" using rs eq by simp
  have c0: "consistent (date_channel e i ([], {}))"
    using date_channel_scores[of e i] by (rule conjunct1)
  have "consistent st" by (rule tag_channel_scores(1)[OF c0 st])
  then have "consistent (semantic_channel e q i st)"
    using semantic_channel_consistent by blast
  then have dacc: "distinct (map log_id ?acc)" by (simp add: consistent_def)
  have kept: "\<forall>r\<in>set rs. log_id r = log_id l \<longrightarrow> retrieval_score r = s"
  proof (intro ballI impI)
    fix r assume r: "r \<in> set rs" and id: "log_id r = log_id l"
    have "lookup_score (log_id r) ?acc = Some (retrieval_score r)"
      using r unfolding rs' by (rule kept_score[OF dacc])
    then show "retrieval_score r = s" unfolding id s by simp
  qed
  have cap: "length (filter (\<lambda>r. s \<le> retrieval_score r) ?acc) \<le> 20
              \<longrightarrow> log_id l \<in> set (map log_id rs)"
  proof
    assume "length (filter (\<lambda>r. s \<le> retrieval_score r) ?acc) \<le> 20"
    then have "r0 \<in> set (finalize ?acc)"
      using r0 unfolding sc0[symmetric] by (intro finalize_kept)
    then have "log_id r0 \<in> set (map log_id rs)" unfolding rs' by simp
    then show "log_id l \<in> set (map log_id rs)" unfolding id0 .
  qed
  have small: "length ?acc \<le> 20 \<longrightarrow> log_id l \<in> set (map log_id rs)"
  proof
    assume a: "length ?acc \<le> 20"
    have "length (filter (\<lambda>r. s \<le> retrieval_score r) ?acc) \<le> length ?acc"
      by (rule length_filter_le)
    then have "length (filter (\<lambda>r. s \<le> retrieval_score r) ?acc) \<le> 20"
      using a by (rule order_trans)
    then show "log_id l \<in> set (map log_id rs)" using cap by simp
  qed
  show ?thesis
    apply (rule exI[of _ ?acc])
    apply (rule exI[of _ s])
    apply (intro conjI)
           apply (rule acc)
          apply (rule rs')
         apply (rule s)
        apply (rule ge)
       apply (rule one)
      apply (rule kept)
     apply (rule cap)
    apply (rule small)
    done
qed

text \<open>
  C3, as the code has it. Let the intent have a date range whose two dates parse. If the
  end is before 31 December 9999, both bounds (the start, and the end advanced by one
  day) have a timestamp, the range query succeeds and the retrieval returns, then every
  row of \<^verbatim>\<open>logs\<close> with timestamp between the two bounds has an entry in the
  accumulated \<^verbatim>\<open>results\<close>. Its score is 1.0 with the contributions of the other
  channels added: at least 1.0 as float addition of a number that is not negative does
  not lower a score, and exactly 1.0 when neither the tag channel nor the semantic channel
  has its id. An entry of the returned sequence with that id carries that score. The row
  appears in the returned sequence when at most 20 accumulated entries have a score that
  is not lower; beyond that the cut to 20 entries may drop it. If the end is
  31 December 9999 (\<^verbatim>\<open>end + timedelta(days=1)\<close> raises \<^verbatim>\<open>OverflowError\<close>),
  a bound has no timestamp or the query fails, the date channel adds nothing.
\<close>

theorem date_range_logs_scored:
  assumes "date_range i = Some (s1, s2)"
    and "strptime e s1 = Inr d1" and "strptime e s2 = Inr d2"
  shows "(d2 < 3652059 \<and> timestamp_ms e d1 = Inr t1 \<and> timestamp_ms e (d2 + 1) = Inr t2 \<and>
          db_error e LogsByDateRange = None \<and> retrieve_logs e q i = Inr rs \<and>
          l \<in> set (logs_table e) \<and> t1 \<le> timestamp l \<and> timestamp l \<le> t2 \<longrightarrow>
            (\<exists>acc s. accumulate e q i = Inr acc \<and> rs = finalize acc \<and>
               lookup_score (log_id l) acc = Some s \<and>
               (monotone_floats e \<longrightarrow> Num 1 \<le> s) \<and>
               (log_id l \<notin> log_id ` set (tag_hits e i) \<and>
                log_id l \<notin> emb_id ` set (semantic_hits e q i) \<longrightarrow> s = Num 1) \<and>
               (\<forall>r\<in>set rs. log_id r = log_id l \<longrightarrow> retrieval_score r = s) \<and>
               (length (filter (\<lambda>r. s \<le> retrieval_score r) acc) \<le> 20
                  \<longrightarrow> log_id l \<in> set (map log_id rs)) \<and>
               (length acc \<le> 20 \<longrightarrow> log_id l \<in> set (map log_id rs)))) \<and>
         (3652059 \<le> d2 \<or> timestamp_ms e d1 = Inl err \<or> timestamp_ms e (d2 + 1) = Inl err \<or>
          db_error e LogsByDateRange = Some err
            \<longrightarrow> date_channel e i st = st)"
proof (intro conjI impI)
  assume a: "d2 < 3652059 \<and> timestamp_ms e d1 = Inr t1 \<and> timestamp_ms e (d2 + 1) = Inr t2 \<and>
          db_error e LogsByDateRange = None \<and> retrieve_logs e q i = Inr rs \<and>
          l \<in> set (logs_table e) \<and> t1 \<le> timestamp l \<and> timestamp l \<le> t2"
  then have p: "plus_one_day d2 = Inr (d2 + 1)" by (simp add: plus_one_day_def)
  from a have h: "timestamp_ms e d1 = Inr t1" "timestamp_ms e (d2 + 1) = Inr t2"
    "db_error e LogsByDateRange = None" "retrieve_logs e q i = Inr rs"
    "l \<in> set (logs_table e)" "t1 \<le> timestamp l" "timestamp l \<le> t2"
    by simp_all
  show "\<exists>acc s. accumulate e q i = Inr acc \<and> rs = finalize acc \<and>
               lookup_score (log_id l) acc = Some s \<and>
               (monotone_floats e \<longrightarrow> Num 1 \<le> s) \<and>
               (log_id l \<notin> log_id ` set (tag_hits e i) \<and>
                log_id l \<notin> emb_id ` set (semantic_hits e q i) \<longrightarrow> s = Num 1) \<and>
               (\<forall>r\<in>set rs. log_id r = log_id l \<longrightarrow> retrieval_score r = s) \<and>
               (length (filter (\<lambda>r. s \<le> retrieval_score r) acc) \<le> 20
                  \<longrightarrow> log_id l \<in> set (map log_id rs)) \<and>
               (length acc \<le> 20 \<longrightarrow> log_id l \<in> set (map log_id rs))"
    by (rule date_range_logs_kept[OF assms p h])
next
  assume "3652059 \<le> d2 \<or> timestamp_ms e d1 = Inl err \<or> timestamp_ms e (d2 + 1) = Inl err \<or>
          db_error e LogsByDateRange = Some err"
  then show "date_channel e i st = st"
    using assms
    by (auto simp: date_channel_def date_query_def plus_one_day_def get_logs_by_date_range_def
        split: sum.splits)
qed

lemma example_monotone_floats: "monotone_floats example_env"
proof -
  have add: "a \<le> exact_add a b" if "Num 0 \<le> b" for a b
    using that by (cases a; cases b) simp_all
  have mul: "Num 0 \<le> exact_mul s (Num 0.7)" if "Num 0.3 < s" for s
    using that by (cases s) simp_all
  show ?thesis
    unfolding monotone_floats_def using add mul by (simp add: example_env_def)
qed

lemma example_date_range:
  "date_range example_intent = Some (''2024-01-01'', ''2024-01-01'')"
  "strptime example_env ''2024-01-01'' = Inr 738886"
  "strptime example_env ''2024-01-01'' = Inr 738886"
  "plus_one_day 738886 = Inr 738887"
  "timestamp_ms example_env 738886 = Inr 1704067200000"
  "timestamp_ms example_env 738887 = Inr 1704153600000"
  "db_error example_env LogsByDateRange = None"
  by (simp_all add: example_defs plus_one_day_def)

lemma example_log_in_range:
  "mk_log ''a'' 1704070000000 [''Python''] \<in> set (logs_table example_env)"
  "1704067200000 \<le> timestamp (mk_log ''a'' 1704070000000 [''Python''])"
  "timestamp (mk_log ''a'' 1704070000000 [''Python'']) \<le> 1704153600000"
  by (simp_all add: example_defs)

lemma example_accumulate:
  "map_sum id (map (\<lambda>r. (log_id r, retrieval_score r))) (accumulate example_env ''q'' example_intent)
     = Inr [(''a'', Num 1), (''b'', Num 0.3), (''c'', Num 0.42)]"
  by (simp add: model_defs example_defs arith_defs sqrt_25)

lemma example_other_channels:
  "map log_id (tag_hits example_env example_intent) = [''b'']"
  "map emb_id (semantic_hits example_env ''q'' example_intent) = [''c'']"
  by (simp_all add: tag_hits_def semantic_hits_def scanned_def passing_def
      model_defs example_defs arith_defs sqrt_25)

lemma example_date_overflow:
  "date_range (date_intent\<lparr>date_range := Some (''2024-01-01'', ''9999-12-31'')\<rparr>)
     = Some (''2024-01-01'', ''9999-12-31'')"
  "strptime example_env ''2024-01-01'' = Inr 738886"
  "strptime example_env ''9999-12-31'' = Inr 3652059"
  by (simp_all add: example_defs)

theorem date_range_logs_scored_witness:
  "date_range example_intent = Some (''2024-01-01'', ''2024-01-01'') \<and>
   strptime example_env ''2024-01-01'' = Inr 738886 \<and>
   (738886::int) < 3652059 \<and>
   timestamp_ms example_env 738886 = Inr 1704067200000 \<and>
   timestamp_ms example_env (738886 + 1) = Inr 1704153600000 \<and>
   db_error example_env LogsByDateRange = None \<and>
   retrieve_logs example_env ''q'' example_intent = Inr example_result \<and>
   mk_log ''a'' 1704070000000 [''Python''] \<in> set (logs_table example_env) \<and>
   1704067200000 \<le> timestamp (mk_log ''a'' 1704070000000 [''Python'']) \<and>
   timestamp (mk_log ''a'' 1704070000000 [''Python'']) \<le> 1704153600000 \<and>
   monotone_floats example_env \<and>
   map log_id (tag_hits example_env example_intent) = [''b''] \<and>
   map emb_id (semantic_hits example_env ''q'' example_intent) = [''c''] \<and>
   map_sum id (map (\<lambda>r. (log_id r, retrieval_score r))) (accumulate example_env ''q'' example_intent)
     = Inr [(''a'', Num 1), (''b'', Num 0.3), (''c'', Num 0.42)] \<and>
   log_id (mk_log ''a'' 1704070000000 [''Python'']) \<in> set (map log_id example_result) \<and>
   lookup_score ''a'' example_result = Some (Num 1) \<and>
   strptime example_env ''9999-12-31'' = Inr 3652059 \<and>
   date_channel example_env (date_intent\<lparr>date_range := Some (''2024-01-01'', ''9999-12-31'')\<rparr>) ([], {})
     = ([], {})"
proof -
  have t: "timestamp_ms example_env 738886 = Inr 1704067200000"
    "timestamp_ms example_env (738886 + 1) = Inr 1704153600000"
    by (simp_all add: example_defs)
  note main = date_range_logs_scored[OF example_date_range(1-3),
      where ?t1.0 = 1704067200000 and ?t2.0 = 1704153600000 and q = "''q''"
        and rs = example_result and l = "mk_log ''a'' 1704070000000 [''Python'']",
      THEN conjunct1]
  from main t example_date_range(7) example_retrieve example_log_in_range
  obtain acc where acc: "accumulate example_env ''q'' example_intent = Inr acc"
    and small: "length acc \<le> 20 \<longrightarrow>
      log_id (mk_log ''a'' 1704070000000 [''Python'']) \<in> set (map log_id example_result)"
    by auto
  have "map (\<lambda>r. (log_id r, retrieval_score r)) acc
          = [(''a'', Num 1), (''b'', Num 0.3), (''c'', Num 0.42)]"
    using example_accumulate unfolding acc by simp
  then have "length (map (\<lambda>r. (log_id r, retrieval_score r)) acc) = 3" by simp
  then have "length acc = 3" by simp
  then have "log_id (mk_log ''a'' 1704070000000 [''Python'']) \<in> set (map log_id example_result)"
    using small by simp
  moreover have "lookup_score ''a'' example_result = Some (Num 1)"
    by (simp add: lookup_score_def example_defs with_score_def from_embedding_def)
  moreover have "date_channel example_env
      (date_intent\<lparr>date_range := Some (''2024-01-01'', ''9999-12-31'')\<rparr>) ([], {}) = ([], {})"
    using date_range_logs_scored[OF example_date_overflow, THEN conjunct2, of _ "([], {})"]
    by simp
  ultimately show ?thesis
    using example_date_range example_retrieve example_log_in_range example_accumulate
      example_monotone_floats example_other_channels example_date_overflow t
    by simp
qed

text \<open>
  C3 as stated fails. With 21 logs in the range, \<^verbatim>\<open>results[:20]\<close> drops one:
  the log \<open>u\<close> lies in the range and is not in the returned sequence.
\<close>

theorem date_range_cap_counterexample:
  "date_range date_intent = Some (''2024-01-01'', ''2024-01-01'') \<and>
   strptime crowded_env ''2024-01-01'' = Inr 738886 \<and>
   plus_one_day 738886 = Inr 738887 \<and>
   timestamp_ms crowded_env 738886 = Inr 1704067200000 \<and>
   timestamp_ms crowded_env 738887 = Inr 1704153600000 \<and>
   db_error crowded_env LogsByDateRange = None \<and>
   mk_log ''u'' 1704070000000 [] \<in> set (logs_table crowded_env) \<and>
   timestamp (mk_log ''u'' 1704070000000 []) = 1704070000000 \<and>
   length (filter (\<lambda>r. 1704067200000 \<le> timestamp r \<and> timestamp r \<le> 1704153600000)
             (logs_table crowded_env)) = 21 \<and>
   map_sum id (map log_id) (retrieve_logs crowded_env ''q'' date_intent) =
     Inr [''a'', ''b'', ''c'', ''d'', ''e'', ''f'', ''g'', ''h'', ''i'', ''j'', ''k'', ''l'', ''m'', ''n'',
          ''o'', ''p'', ''q'', ''r'', ''s'', ''t''] \<and>
   ''u'' \<notin> set [''a'', ''b'', ''c'', ''d'', ''e'', ''f'', ''g'', ''h'', ''i'', ''j'', ''k'', ''l'', ''m'', ''n'',
          ''o'', ''p'', ''q'', ''r'', ''s'', ''t'']"
  by (simp add: model_defs example_defs)

end
